theory Spec2Isabelle
  imports Complex_Main "HOL-Library.AList"
begin

section \<open>JavaScript values used by the aggregation code\<close>

text \<open>
  A JavaScript \<open>number\<close> is modelled as a rational: sums and quotients are exact, so the
  rounding error of IEEE-754 doubles is outside the model. The two results of a division
  that are not numbers of this kind (\<open>NaN\<close> and the infinities, which arise from a zero
  divisor) are the value \<open>None\<close> of \<open>jsdiv\<close>. A value of type \<open>number | undefined\<close>
  is a \<open>rat option\<close>.

  An object used as a dictionary (\<open>Record<string, T>\<close>, \<open>{ [key: string]: T }\<close>) is an
  association list in the order of \<open>Object.keys\<close>; a well-formed one has distinct keys.
  \<open>obj[k]\<close> is \<open>map_of obj k\<close> (\<open>None\<close> is \<open>undefined\<close>), and the assignment \<open>obj[k] = v\<close> is
  \<open>AList.update k v obj\<close>, which overwrites in place or appends. Keys are assumed to be
  neither names of properties inherited from \<open>Object.prototype\<close> nor array indices, which
  \<open>Object.keys\<close> lists first. A \<open>Set<string>\<close> is the list of its elements in insertion
  order.
\<close>

type_synonym 'v Record = "(string \<times> 'v) list"

definition Object_keys :: "'v Record \<Rightarrow> string list" where
  "Object_keys obj = map fst obj"

definition Set_add :: "string \<Rightarrow> string list \<Rightarrow> string list" where
  "Set_add x s = (if x \<in> set s then s else s @ [x])"

text \<open>\<open>x || 0\<close> for \<open>x : number | undefined\<close>: \<open>undefined\<close> and \<open>0\<close> both give \<open>0\<close>.\<close>

fun orZero :: "rat option \<Rightarrow> rat" where
  "orZero None = 0"
| "orZero (Some v) = v"

text \<open>
  \<open>x || y\<close> for a string \<open>x\<close> that may be \<open>null\<close>: a string is truthy when it is
  not empty.
\<close>

fun orElse :: "string option \<Rightarrow> string \<Rightarrow> string" where
  "orElse None y = y"
| "orElse (Some x) y = (if x = [] then y else x)"

text \<open>
  \<open>Number(x.toFixed(d))\<close>. \<open>Number.prototype.toFixed\<close> works on the absolute value and
  puts the sign back; it takes the integer \<open>n\<close> for which \<open>n / 10^d - x\<close> is closest to
  zero, and the larger \<open>n\<close> if there are two. (From \<open>10^21\<close> on it prints the number
  itself, which as a double is an integer, so the value is the same.)
\<close>

definition toFixed :: "nat \<Rightarrow> rat \<Rightarrow> rat" where
  "toFixed d x =
     (if x < 0 then - (of_int \<lfloor>(- x) * 10 ^ d + 1 / 2\<rfloor> / 10 ^ d)
      else of_int \<lfloor>x * 10 ^ d + 1 / 2\<rfloor> / 10 ^ d)"

definition jsdiv :: "rat \<Rightarrow> nat \<Rightarrow> rat option" where
  "jsdiv x n = (if n = 0 then None else Some (x / of_nat n))"

section \<open>Data model (\<open>metrics-collector.ts\<close>, \<open>report-generator.ts\<close>)\<close>

record Weight =
  totalBytes :: rat
  thirdPartyBytes :: "rat option"

text \<open>
  The interface declares \<open>hostnames\<close> and \<open>etldPlus1s\<close> as required, but the report
  generator tests their presence on data parsed from JSON, so they are optional here.
\<close>

record Requests =
  totalRequests :: rat
  blockedRequests :: rat
  notBlockedRequests :: rat
  thirdPartyRequests :: rat
  thirdPartyBlockedRequests :: rat
  thirdPartyNotBlockedRequests :: rat
  hostnames :: "rat Record option"
  etldPlus1s :: "rat Record option"

text \<open>The field \<open>method\<close> of the interface is \<open>method_name\<close> here.\<close>

record Metrics =
  url :: string
  domain :: string
  measureTime :: string
  testEnv :: string
  method_name :: string
  domContentLoadTimeMs :: "rat option"
  loadTimeMs :: "rat option"
  weight :: Weight
  requests :: Requests

type_synonym MetricsData = "Metrics list Record"

datatype error = EmptyMetricsArray | TypeError | ProcessExit

section \<open>Run averager (\<open>MetricsCollector\<close>)\<close>

definition calculateAverage :: "Metrics list \<Rightarrow> (Metrics \<Rightarrow> rat option) \<Rightarrow> rat" where
  "calculateAverage metrics selector =
     (let validMetrics = filter (\<lambda>m. selector m \<noteq> None) metrics in
      if length validMetrics = 0 then 0
      else
        let sum = foldl (\<lambda>acc metric. acc + orZero (selector metric)) 0 validMetrics in
        toFixed 2 (sum / of_nat (length validMetrics)))"

text \<open>
  \<open>collectUniqueKeys\<close>: \<open>Object.keys\<close> of \<open>undefined\<close> throws a \<open>TypeError\<close>, which
  ends the whole call.
\<close>

fun collectUniqueKeys_from :: "string list \<Rightarrow> 'a list \<Rightarrow> ('a \<Rightarrow> rat Record option) \<Rightarrow> error + string list" where
  "collectUniqueKeys_from keys [] selector = Inr keys"
| "collectUniqueKeys_from keys (item # array) selector =
     (case selector item of
        None \<Rightarrow> Inl TypeError
      | Some obj \<Rightarrow>
          collectUniqueKeys_from (foldl (\<lambda>ks key. Set_add key ks) keys (Object_keys obj)) array selector)"

definition collectUniqueKeys :: "'a list \<Rightarrow> ('a \<Rightarrow> rat Record option) \<Rightarrow> error + string list" where
  "collectUniqueKeys array selector = collectUniqueKeys_from [] array selector"

definition computeAveragesForKeys ::
    "Metrics list \<Rightarrow> string list \<Rightarrow> (Metrics \<Rightarrow> string \<Rightarrow> rat option) \<Rightarrow> rat Record" where
  "computeAveragesForKeys metricsArray keys valueSelector =
     foldl (\<lambda>averages key.
        let sum = foldl (\<lambda>acc metric. acc + orZero (valueSelector metric key)) 0 metricsArray;
            average = toFixed 2 (sum / of_nat (length metricsArray))
        in if average > 0 then AList.update key average averages else averages)
       [] keys"

text \<open>
  The value selectors \<open>m.requests.hostnames[key]\<close> and \<open>m.requests.etldPlus1s[key]\<close>. They
  run only after \<open>collectUniqueKeys\<close> has read the same object of every run, so the
  object is present whenever they are called.
\<close>

definition hostnameValue :: "Metrics \<Rightarrow> string \<Rightarrow> rat option" where
  "hostnameValue m key = (case hostnames (requests m) of None \<Rightarrow> None | Some obj \<Rightarrow> map_of obj key)"

definition etldPlus1Value :: "Metrics \<Rightarrow> string \<Rightarrow> rat option" where
  "etldPlus1Value m key = (case etldPlus1s (requests m) of None \<Rightarrow> None | Some obj \<Rightarrow> map_of obj key)"

definition computeHostnameAverages :: "Metrics list \<Rightarrow> error + rat Record" where
  "computeHostnameAverages metricsArray =
     (case collectUniqueKeys metricsArray (\<lambda>m. hostnames (requests m)) of
        Inl e \<Rightarrow> Inl e
      | Inr allHostnames \<Rightarrow> Inr (computeAveragesForKeys metricsArray allHostnames hostnameValue))"

definition computeEtldPlusOneAverages :: "Metrics list \<Rightarrow> error + rat Record" where
  "computeEtldPlusOneAverages metricsArray =
     (case collectUniqueKeys metricsArray (\<lambda>m. etldPlus1s (requests m)) of
        Inl e \<Rightarrow> Inl e
      | Inr allEtlds \<Rightarrow> Inr (computeAveragesForKeys metricsArray allEtlds etldPlus1Value))"

fun computeAverageMetrics :: "Metrics list \<Rightarrow> error + Metrics" where
  "computeAverageMetrics [] = Inl EmptyMetricsArray"
| "computeAverageMetrics (m0 # rest) =
     (let metricsArray = m0 # rest in
      case computeHostnameAverages metricsArray of
        Inl e \<Rightarrow> Inl e
      | Inr hostnamesAvg \<Rightarrow>
     (case computeEtldPlusOneAverages metricsArray of
        Inl e \<Rightarrow> Inl e
      | Inr etldPlus1sAvg \<Rightarrow>
          Inr (m0\<lparr>
            domContentLoadTimeMs := Some (calculateAverage metricsArray domContentLoadTimeMs),
            loadTimeMs := Some (calculateAverage metricsArray loadTimeMs),
            weight := \<lparr>
              totalBytes = calculateAverage metricsArray (\<lambda>m. Some (totalBytes (weight m))),
              thirdPartyBytes = Some (calculateAverage metricsArray (\<lambda>m. thirdPartyBytes (weight m)))\<rparr>,
            requests := (requests m0)\<lparr>
              totalRequests := calculateAverage metricsArray (\<lambda>m. Some (totalRequests (requests m))),
              blockedRequests := calculateAverage metricsArray (\<lambda>m. Some (blockedRequests (requests m))),
              notBlockedRequests := calculateAverage metricsArray (\<lambda>m. Some (notBlockedRequests (requests m))),
              thirdPartyRequests := calculateAverage metricsArray (\<lambda>m. Some (thirdPartyRequests (requests m))),
              thirdPartyBlockedRequests :=
                calculateAverage metricsArray (\<lambda>m. Some (thirdPartyBlockedRequests (requests m))),
              thirdPartyNotBlockedRequests :=
                calculateAverage metricsArray (\<lambda>m. Some (thirdPartyNotBlockedRequests (requests m))),
              hostnames := Some hostnamesAvg,
              etldPlus1s := Some etldPlus1sAvg\<rparr>\<rparr>)))"

section \<open>Report generator (\<open>report-generator.ts\<close>)\<close>

datatype TestEnvironmentType = TestEnvironment_None | Baseline | DNS | Extension

record TrackerInfo =
  name :: string
  categoryId :: int
  url :: "string option"
  companyId :: "string option"
  source :: "string option"

record TrackersData =
  timeUpdated :: string
  categories :: "string Record"
  trackers :: "TrackerInfo Record"
  trackerDomains :: "string Record"

record CompanyInfo =
  name :: string
  websiteUrl :: "string option"
  description :: "string option"
  source :: "string option"

record CompaniesData =
  timeUpdated :: string
  companies :: "CompanyInfo Record"

text \<open>The object returned by \<open>initializeAggregatedData\<close>.\<close>

record AggregatedData =
  totalDomContentLoadTime :: rat
  totalLoadTime :: rat
  totalBytes :: rat
  totalRequests :: rat
  totalThirdPartyRequests :: rat
  totalBlockedRequests :: rat
  totalHostnames :: rat
  totalEtldPlus1s :: rat

text \<open>The object returned by \<open>initializeCollectedData\<close>.\<close>

record CollectedData =
  hostnamesData :: "rat Record"
  etldPlus1Data :: "rat Record"
  trackersData :: "rat Record"
  companiesData :: "rat Record"
  etldPlus1WebsitesData :: "string list Record"
  companiesWebsitesData :: "string list Record"
  trackersWebsitesData :: "string list Record"

text \<open>
  The average fields hold the result of a division by \<open>siteCount\<close>; \<open>None\<close> is the
  \<open>NaN\<close> of an empty input. The field \<open>type\<close> of the interface is \<open>reportType\<close> here.
\<close>

record ReportResult =
  siteCount :: nat
  averageDomContentLoadTime :: "rat option"
  averageLoadTime :: "rat option"
  totalLoadTime :: rat
  averageBytes :: "rat option"
  totalBytes :: rat
  averageRequests :: "rat option"
  totalRequests :: rat
  averageThirdPartyRequests :: "rat option"
  totalThirdPartyRequests :: rat
  averageBlockedRequests :: "rat option"
  totalBlockedRequests :: rat
  averageHostnames :: "rat option"
  totalHostnames :: rat
  averageEtldPlus1s :: "rat option"
  totalEtldPlus1s :: rat
  domainsData :: MetricsData
  etldPlus1WebsitesData :: "nat Record"
  companiesWebsitesData :: "nat Record"
  trackersWebsitesData :: "nat Record"
  reportType :: TestEnvironmentType

definition MIN_REQUESTS_THRESHOLD :: rat where
  "MIN_REQUESTS_THRESHOLD = 20"

definition initializeAggregatedData :: AggregatedData where
  "initializeAggregatedData = \<lparr>
     totalDomContentLoadTime = 0, totalLoadTime = 0, totalBytes = 0, totalRequests = 0,
     totalThirdPartyRequests = 0, totalBlockedRequests = 0, totalHostnames = 0, totalEtldPlus1s = 0\<rparr>"

definition initializeCollectedData :: CollectedData where
  "initializeCollectedData = \<lparr>
     hostnamesData = [], etldPlus1Data = [], trackersData = [], companiesData = [],
     etldPlus1WebsitesData = [], companiesWebsitesData = [], trackersWebsitesData = []\<rparr>"

text \<open>\<open>x || 0\<close> on a field of type \<open>number\<close> is written \<open>orZero (Some x)\<close>.\<close>

definition aggregateBasicMetrics :: "Metrics \<Rightarrow> AggregatedData \<Rightarrow> AggregatedData" where
  "aggregateBasicMetrics entry aggregatedData = aggregatedData\<lparr>
     totalDomContentLoadTime :=
       totalDomContentLoadTime aggregatedData + orZero (domContentLoadTimeMs entry),
     AggregatedData.totalLoadTime := AggregatedData.totalLoadTime aggregatedData + orZero (loadTimeMs entry),
     AggregatedData.totalBytes :=
       AggregatedData.totalBytes aggregatedData + orZero (Some (Weight.totalBytes (weight entry))),
     AggregatedData.totalRequests :=
       AggregatedData.totalRequests aggregatedData + orZero (Some (Requests.totalRequests (requests entry))),
     AggregatedData.totalThirdPartyRequests :=
       AggregatedData.totalThirdPartyRequests aggregatedData + orZero (Some (thirdPartyRequests (requests entry))),
     AggregatedData.totalBlockedRequests :=
       AggregatedData.totalBlockedRequests aggregatedData + orZero (Some (blockedRequests (requests entry)))\<rparr>"

text \<open>
  The test \<open>id = trackersInfo.trackerDomains[key]; id && trackersInfo.trackers[id]\<close>, which
  both resolvers make for the hostname and for its eTLD+1: the tracker it finds, if any.
\<close>

definition findTracker :: "TrackersData \<Rightarrow> string \<Rightarrow> TrackerInfo option" where
  "findTracker trackersInfo key =
     (case map_of (trackerDomains trackersInfo) key of
        None \<Rightarrow> None
      | Some trackerId \<Rightarrow> if trackerId = [] then None else map_of (trackers trackersInfo) trackerId)"

text \<open>The test \<open>companyId && companiesInfo.companies[companyId]\<close>.\<close>

definition findCompany :: "CompaniesData \<Rightarrow> string option \<Rightarrow> CompanyInfo option" where
  "findCompany companiesInfo company_id =
     (case company_id of
        None \<Rightarrow> None
      | Some cid \<Rightarrow> if cid = [] then None else map_of (companies companiesInfo) cid)"

text \<open>
  \<open>if (!data[name]) data[name] = new Set(); data[name].add(domain)\<close>. A \<open>Set\<close> object is
  truthy even when empty, so only a missing entry is created.
\<close>

definition addWebsite :: "string \<Rightarrow> string \<Rightarrow> string list Record \<Rightarrow> string list Record" where
  "addWebsite key domain_name websitesData =
     (case map_of websitesData key of
        None \<Rightarrow> AList.update key (Set_add domain_name []) websitesData
      | Some websites \<Rightarrow> AList.update key (Set_add domain_name websites) websitesData)"

text \<open>
  The body of the callback of \<open>processTrackers\<close> up to the final test: the value of
  \<open>trackerName\<close> there, or \<open>None\<close> where the callback has returned early. \<open>getDomain\<close> is
  the function of the library \<open>tldts\<close>, a parameter of the model; it returns \<open>null\<close>
  (\<open>None\<close>) for a hostname without a registrable domain.
\<close>

definition trackerNameOf :: "(string \<Rightarrow> string option) \<Rightarrow> TrackersData \<Rightarrow> string \<Rightarrow> string option" where
  "trackerNameOf getDomain trackersInfo hostname =
     (case findTracker trackersInfo hostname of
        Some tracker \<Rightarrow> Some (TrackerInfo.name tracker)
      | None \<Rightarrow>
          (case getDomain hostname of
             None \<Rightarrow> Some hostname
           | Some etldPlus1 \<Rightarrow>
               if etldPlus1 = [] then Some hostname
               else (case findTracker trackersInfo etldPlus1 of
                       Some tracker \<Rightarrow> Some (TrackerInfo.name tracker)
                     | None \<Rightarrow> None)))"

definition processTrackers ::
    "(string \<Rightarrow> string option) \<Rightarrow> rat Record \<Rightarrow> TrackersData \<Rightarrow> rat Record \<Rightarrow> string list Record \<Rightarrow> string
      \<Rightarrow> rat Record \<times> string list Record" where
  "processTrackers getDomain hostnames_obj trackersInfo trackersData_obj trackersWebsitesData_obj domain_name =
     foldl (\<lambda>(td, twd) (hostname, count).
        case trackerNameOf getDomain trackersInfo hostname of
          None \<Rightarrow> (td, twd)
        | Some trackerName \<Rightarrow>
            if trackerName \<noteq> [] then
              (AList.update trackerName (orZero (map_of td trackerName) + count) td,
               addWebsite trackerName domain_name twd)
            else (td, twd))
       (trackersData_obj, trackersWebsitesData_obj) hostnames_obj"

text \<open>
  The same for \<open>processCompanies\<close>: the value of \<open>companyName\<close> at the final test, which
  starts as \<open>getDomain(hostname) || hostname\<close>, or \<open>None\<close> after the early return.
  \<open>etldPlus1.split('.')[0]\<close> is the text before the first dot.
\<close>

definition companyNameOf ::
    "(string \<Rightarrow> string option) \<Rightarrow> TrackersData \<Rightarrow> CompaniesData \<Rightarrow> string \<Rightarrow> string option" where
  "companyNameOf getDomain trackersInfo companiesInfo hostname =
     (let companyName = orElse (getDomain hostname) hostname in
      case findTracker trackersInfo hostname of
        Some tracker \<Rightarrow>
          (case findCompany companiesInfo (companyId tracker) of
             Some company \<Rightarrow> Some (CompanyInfo.name company)
           | None \<Rightarrow> Some companyName)
      | None \<Rightarrow>
          (case getDomain hostname of
             None \<Rightarrow> Some companyName
           | Some etldPlus1 \<Rightarrow>
               if etldPlus1 = [] then Some companyName
               else (case findTracker trackersInfo etldPlus1 of
                       Some tracker \<Rightarrow>
                         (case findCompany companiesInfo (companyId tracker) of
                            Some company \<Rightarrow> Some (CompanyInfo.name company)
                          | None \<Rightarrow> Some companyName)
                     | None \<Rightarrow>
                         (let domainWithoutTLD = takeWhile (\<lambda>c. c \<noteq> CHR ''.'') etldPlus1 in
                          case map_of (companies companiesInfo) domainWithoutTLD of
                            Some company \<Rightarrow> Some (CompanyInfo.name company)
                          | None \<Rightarrow> None))))"

definition processCompanies ::
    "(string \<Rightarrow> string option) \<Rightarrow> string \<Rightarrow> rat Record \<Rightarrow> TrackersData \<Rightarrow> CompaniesData
      \<Rightarrow> rat Record \<Rightarrow> string list Record \<Rightarrow> rat Record \<times> string list Record" where
  "processCompanies getDomain domain_name hostnames_obj trackersInfo companiesInfo companiesData_obj
       companiesWebsitesData_obj =
     foldl (\<lambda>(cd, cwd) (hostname, count).
        case companyNameOf getDomain trackersInfo companiesInfo hostname of
          None \<Rightarrow> (cd, cwd)
        | Some companyName \<Rightarrow>
            if companyName \<noteq> [] then
              (AList.update companyName (orZero (map_of cd companyName) + count) cd,
               addWebsite companyName domain_name cwd)
            else (cd, cwd))
       (companiesData_obj, companiesWebsitesData_obj) hostnames_obj"

text \<open>\<open>if (!data[key]) data[key] = count; else data[key] += count\<close>.\<close>

definition addCount :: "string \<Rightarrow> rat \<Rightarrow> rat Record \<Rightarrow> rat Record" where
  "addCount key count data =
     (case map_of data key of
        None \<Rightarrow> AList.update key count data
      | Some v \<Rightarrow> if v = 0 then AList.update key count data else AList.update key (v + count) data)"

text \<open>
  \<open>processHostnameData\<close> and \<open>processEtldPlus1Data\<close> receive the object whose presence
  their caller has just tested (\<open>entry.requests.hostnames!\<close>).
\<close>

definition processHostnameData ::
    "(string \<Rightarrow> string option) \<Rightarrow> string \<Rightarrow> rat Record \<Rightarrow> TrackersData \<Rightarrow> CompaniesData
      \<Rightarrow> AggregatedData \<Rightarrow> CollectedData \<Rightarrow> AggregatedData \<times> CollectedData" where
  "processHostnameData getDomain domain_name hostnames_obj trackersInfo companiesInfo aggregatedData collectedData =
     (let hostnameCount = length (Object_keys hostnames_obj);
          aggregatedData' = aggregatedData\<lparr>AggregatedData.totalHostnames :=
            AggregatedData.totalHostnames aggregatedData + of_nat hostnameCount\<rparr>;
          hostnamesData' =
            foldl (\<lambda>hd (hostname, count). addCount hostname count hd) (hostnamesData collectedData) hostnames_obj;
          (trackersData', trackersWebsitesData') =
            processTrackers getDomain hostnames_obj trackersInfo (trackersData collectedData)
              (CollectedData.trackersWebsitesData collectedData) domain_name;
          (companiesData', companiesWebsitesData') =
            processCompanies getDomain domain_name hostnames_obj trackersInfo companiesInfo
              (companiesData collectedData) (CollectedData.companiesWebsitesData collectedData);
          etldPlus1WebsitesData' =
            foldl (\<lambda>ewd hostname.
                     case getDomain hostname of
                       None \<Rightarrow> ewd
                     | Some etldPlus1 \<Rightarrow> if etldPlus1 = [] then ewd else addWebsite etldPlus1 domain_name ewd)
              (CollectedData.etldPlus1WebsitesData collectedData) (Object_keys hostnames_obj)
      in (aggregatedData',
          collectedData\<lparr>hostnamesData := hostnamesData', trackersData := trackersData',
            companiesData := companiesData',
            CollectedData.etldPlus1WebsitesData := etldPlus1WebsitesData',
            CollectedData.companiesWebsitesData := companiesWebsitesData',
            CollectedData.trackersWebsitesData := trackersWebsitesData'\<rparr>))"

definition processEtldPlus1Data ::
    "rat Record \<Rightarrow> AggregatedData \<Rightarrow> CollectedData \<Rightarrow> AggregatedData \<times> CollectedData" where
  "processEtldPlus1Data etldPlus1s_obj aggregatedData collectedData =
     (let etldPlus1Count = length (Object_keys etldPlus1s_obj) in
      (aggregatedData\<lparr>AggregatedData.totalEtldPlus1s :=
         AggregatedData.totalEtldPlus1s aggregatedData + of_nat etldPlus1Count\<rparr>,
       collectedData\<lparr>etldPlus1Data :=
         foldl (\<lambda>ed (etldPlus1, count). addCount etldPlus1 count ed) (etldPlus1Data collectedData)
           etldPlus1s_obj\<rparr>))"

text \<open>The body of the inner \<open>entries.forEach\<close> of \<open>processAllDomains\<close>.\<close>

definition processEntry ::
    "(string \<Rightarrow> string option) \<Rightarrow> TrackersData \<Rightarrow> CompaniesData \<Rightarrow> string
      \<Rightarrow> AggregatedData \<times> CollectedData \<Rightarrow> Metrics \<Rightarrow> AggregatedData \<times> CollectedData" where
  "processEntry getDomain trackersInfo companiesInfo domain_name state entry =
     (let aggregatedData = aggregateBasicMetrics entry (fst state);
          state' = (case hostnames (requests entry) of
                      Some hostnames_obj \<Rightarrow>
                        processHostnameData getDomain domain_name hostnames_obj trackersInfo companiesInfo
                          aggregatedData (snd state)
                    | None \<Rightarrow> (aggregatedData, snd state))
      in case etldPlus1s (requests entry) of
           Some etldPlus1s_obj \<Rightarrow> processEtldPlus1Data etldPlus1s_obj (fst state') (snd state')
         | None \<Rightarrow> state')"

text \<open>
  \<open>domains\<close> is \<open>Object.keys(data)\<close>, so \<open>data[domain]\<close> is always present; the branch
  for a missing entry is never taken.
\<close>

definition processAllDomains ::
    "(string \<Rightarrow> string option) \<Rightarrow> string list \<Rightarrow> MetricsData \<Rightarrow> TrackersData \<Rightarrow> CompaniesData
      \<Rightarrow> AggregatedData \<Rightarrow> CollectedData \<Rightarrow> AggregatedData \<times> CollectedData" where
  "processAllDomains getDomain domains data trackersInfo companiesInfo aggregatedData collectedData =
     foldl (\<lambda>state domain_name.
        case map_of data domain_name of
          Some entries \<Rightarrow> foldl (processEntry getDomain trackersInfo companiesInfo domain_name) state entries
        | None \<Rightarrow> state)
       (aggregatedData, collectedData) domains"

definition sizes :: "string list Record \<Rightarrow> nat Record" where
  "sizes websitesData = map (\<lambda>(key, websites). (key, length websites)) websitesData"

definition convertSetsToCountMaps :: "CollectedData \<Rightarrow> nat Record \<times> nat Record \<times> nat Record" where
  "convertSetsToCountMaps collectedData =
     (sizes (CollectedData.etldPlus1WebsitesData collectedData),
      sizes (CollectedData.companiesWebsitesData collectedData),
      sizes (CollectedData.trackersWebsitesData collectedData))"

text \<open>The object returned by \<open>calculateAverages\<close>, as a tuple in the order of its fields.\<close>

definition calculateAverages ::
    "AggregatedData \<Rightarrow> nat \<Rightarrow> rat option \<times> rat option \<times> rat option \<times> rat option \<times> rat option \<times> rat option
       \<times> rat option \<times> rat option" where
  "calculateAverages aggregatedData siteCount_n =
     (jsdiv (totalDomContentLoadTime aggregatedData) siteCount_n,
      jsdiv (AggregatedData.totalLoadTime aggregatedData) siteCount_n,
      jsdiv (AggregatedData.totalBytes aggregatedData) siteCount_n,
      jsdiv (AggregatedData.totalRequests aggregatedData) siteCount_n,
      jsdiv (AggregatedData.totalThirdPartyRequests aggregatedData) siteCount_n,
      jsdiv (AggregatedData.totalBlockedRequests aggregatedData) siteCount_n,
      jsdiv (AggregatedData.totalHostnames aggregatedData) siteCount_n,
      jsdiv (AggregatedData.totalEtldPlus1s aggregatedData) siteCount_n)"

definition assembleResult ::
    "nat \<Rightarrow> AggregatedData
      \<Rightarrow> rat option \<times> rat option \<times> rat option \<times> rat option \<times> rat option \<times> rat option \<times> rat option \<times> rat option
      \<Rightarrow> MetricsData \<Rightarrow> nat Record \<Rightarrow> nat Record \<Rightarrow> nat Record \<Rightarrow> ReportResult" where
  "assembleResult siteCount_n aggregatedData averages data etldPlus1WebsitesCounts companiesWebsitesCounts
       trackersWebsitesCounts =
     (case averages of
        (avgDomContentLoadTime, avgLoadTime, avgBytes, avgRequests, avgThirdPartyRequests, avgBlockedRequests,
         avgHostnames, avgEtldPlus1s) \<Rightarrow>
       \<lparr>siteCount = siteCount_n,
        averageDomContentLoadTime = avgDomContentLoadTime,
        averageLoadTime = avgLoadTime,
        totalLoadTime = AggregatedData.totalLoadTime aggregatedData,
        averageBytes = avgBytes,
        totalBytes = AggregatedData.totalBytes aggregatedData,
        averageRequests = avgRequests,
        totalRequests = toFixed 0 (AggregatedData.totalRequests aggregatedData),
        averageThirdPartyRequests = avgThirdPartyRequests,
        totalThirdPartyRequests = toFixed 0 (AggregatedData.totalThirdPartyRequests aggregatedData),
        averageBlockedRequests = avgBlockedRequests,
        totalBlockedRequests = toFixed 0 (AggregatedData.totalBlockedRequests aggregatedData),
        averageHostnames = avgHostnames,
        totalHostnames = AggregatedData.totalHostnames aggregatedData,
        averageEtldPlus1s = avgEtldPlus1s,
        totalEtldPlus1s = AggregatedData.totalEtldPlus1s aggregatedData,
        domainsData = data,
        etldPlus1WebsitesData = etldPlus1WebsitesCounts,
        companiesWebsitesData = companiesWebsitesCounts,
        trackersWebsitesData = trackersWebsitesCounts,
        reportType = Baseline\<rparr>)"

definition computeStatistics ::
    "(string \<Rightarrow> string option) \<Rightarrow> MetricsData \<Rightarrow> TrackersData \<Rightarrow> CompaniesData \<Rightarrow> ReportResult" where
  "computeStatistics getDomain data trackersInfo companiesInfo =
     (let domains = Object_keys data;
          siteCount_n = length domains;
          (aggregatedData, collectedData) =
            processAllDomains getDomain domains data trackersInfo companiesInfo
              initializeAggregatedData initializeCollectedData;
          (etldPlus1WebsitesCounts, companiesWebsitesCounts, trackersWebsitesCounts) =
            convertSetsToCountMaps collectedData;
          averages = calculateAverages aggregatedData siteCount_n
      in assembleResult siteCount_n aggregatedData averages data etldPlus1WebsitesCounts
           companiesWebsitesCounts trackersWebsitesCounts)"

text \<open>
  \<open>findCommonDomains\<close>. The average of an empty list of entries is \<open>0 / 0\<close>, and
  \<open>NaN >= 20\<close> is false. \<open>new Set(list)\<close> keeps the first occurrence of each element. The
  result of the \<open>reduce\<close> is \<open>null\<close> only when there is no input at all; the test
  \<open>!commonDomains\<close> is false for every \<open>Set\<close>, the empty one included.
\<close>

definition newSet :: "string list \<Rightarrow> string list" where
  "newSet xs = foldl (\<lambda>s x. Set_add x s) [] xs"

definition validDomains :: "MetricsData \<Rightarrow> string list" where
  "validDomains data =
     map fst (filter (\<lambda>(domain_name, entries).
        let total = foldl (\<lambda>sum entry. sum + orZero (Some (Requests.totalRequests (requests entry)))) 0 entries
        in case jsdiv total (length entries) of
             None \<Rightarrow> False
           | Some avgRequests \<Rightarrow> avgRequests \<ge> MIN_REQUESTS_THRESHOLD) data)"

definition findCommonDomains :: "MetricsData list \<Rightarrow> error + string list" where
  "findCommonDomains allData =
     (let commonDomains =
            foldl (\<lambda>acc data.
               let domains = newSet (validDomains data) in
               case acc of
                 None \<Rightarrow> Some domains
               | Some common \<Rightarrow> Some (filter (\<lambda>domain_name. domain_name \<in> set domains) common))
              None allData
      in case commonDomains of
           None \<Rightarrow> Inl ProcessExit
         | Some common \<Rightarrow> Inr common)"

definition determineTestEnvironment :: "MetricsData \<Rightarrow> TestEnvironmentType" where
  "determineTestEnvironment data =
     (case Object_keys data of
        [] \<Rightarrow> Baseline
      | firstDomain # _ \<Rightarrow>
          (case map_of data firstDomain of
             None \<Rightarrow> Baseline
           | Some [] \<Rightarrow> Baseline
           | Some (firstEntry # _) \<Rightarrow>
               if testEnv firstEntry = [] then Baseline
               else if testEnv firstEntry = ''baseline'' then Baseline
               else if testEnv firstEntry = ''dns'' then DNS
               else if testEnv firstEntry = ''extension'' then Extension
               else TestEnvironment_None))"

definition filterDataByCommonDomains :: "MetricsData \<Rightarrow> string list \<Rightarrow> MetricsData" where
  "filterDataByCommonDomains data commonDomains =
     foldl (\<lambda>filteredData domain_name.
        if domain_name \<in> set commonDomains then
          (case map_of data domain_name of
             Some entries \<Rightarrow> AList.update domain_name entries filteredData
           | None \<Rightarrow> filteredData)
        else filteredData)
       [] (Object_keys data)"

text \<open>
  \<open>generateReportResults\<close>: the loop over \<open>inputFiles\<close> reads \<open>allData[i]\<close>, and reading
  the keys of a missing one throws. \<open>basename\<close> is \<open>path.basename\<close>, a parameter; the
  two reference tables, which the source reads from disk, are parameters as well.
\<close>

fun generateReportResults_loop ::
    "(string \<Rightarrow> string option) \<Rightarrow> (string \<Rightarrow> string) \<Rightarrow> TrackersData \<Rightarrow> CompaniesData \<Rightarrow> string list
      \<Rightarrow> string list \<Rightarrow> MetricsData list \<Rightarrow> ReportResult Record \<Rightarrow> error + ReportResult Record" where
  "generateReportResults_loop getDomain basename trackersInfo companiesInfo commonDomains [] allData
       reportResultsMap = Inr reportResultsMap"
| "generateReportResults_loop getDomain basename trackersInfo companiesInfo commonDomains (file # files) []
       reportResultsMap = Inl TypeError"
| "generateReportResults_loop getDomain basename trackersInfo companiesInfo commonDomains (file # files)
       (data # allData) reportResultsMap =
     (let fileName = basename file;
          filteredData = filterDataByCommonDomains data commonDomains;
          environmentType = determineTestEnvironment filteredData;
          result = computeStatistics getDomain filteredData trackersInfo companiesInfo
      in generateReportResults_loop getDomain basename trackersInfo companiesInfo commonDomains files allData
           (AList.update fileName (result\<lparr>reportType := environmentType\<rparr>) reportResultsMap))"

definition generateReportResults ::
    "(string \<Rightarrow> string option) \<Rightarrow> (string \<Rightarrow> string) \<Rightarrow> TrackersData \<Rightarrow> CompaniesData
      \<Rightarrow> MetricsData list \<Rightarrow> string list \<Rightarrow> string list \<Rightarrow> error + ReportResult Record" where
  "generateReportResults getDomain basename trackersInfo companiesInfo allData commonDomains inputFiles =
     generateReportResults_loop getDomain basename trackersInfo companiesInfo commonDomains inputFiles allData []"

text \<open>
  \<open>generateReport\<close> from the loaded data (\<open>allData\<close>, one element for each input file) to
  the map it hands to \<open>buildApp\<close>.
\<close>

definition generateReport ::
    "(string \<Rightarrow> string option) \<Rightarrow> (string \<Rightarrow> string) \<Rightarrow> TrackersData \<Rightarrow> CompaniesData
      \<Rightarrow> MetricsData list \<Rightarrow> string list \<Rightarrow> error + ReportResult Record" where
  "generateReport getDomain basename trackersInfo companiesInfo allData inputFiles =
     (case findCommonDomains allData of
        Inl e \<Rightarrow> Inl e
      | Inr commonDomains \<Rightarrow>
          generateReportResults getDomain basename trackersInfo companiesInfo allData commonDomains inputFiles)"

section \<open>Notions used in the statements\<close>

text \<open>The values of the runs where an optional field is defined, in the order of the runs.\<close>

fun definedValues :: "rat option list \<Rightarrow> rat list" where
  "definedValues [] = []"
| "definedValues (None # xs) = definedValues xs"
| "definedValues (Some v # xs) = v # definedValues xs"

text \<open>The keys of an optional dictionary; a missing one has none.\<close>

definition keysOf :: "rat Record option \<Rightarrow> string set" where
  "keysOf obj = (case obj of None \<Rightarrow> {} | Some al \<Rightarrow> fst ` set al)"

text \<open>
  The average of one key over the runs as the specification words it, before rounding:
  the value stored under the key in the dictionary of each run, a run without the key
  counting \<open>0\<close>, summed and divided by the number of all runs.
\<close>

definition runValue :: "rat Record option \<Rightarrow> string \<Rightarrow> rat" where
  "runValue obj key =
     (case obj of
        None \<Rightarrow> 0
      | Some al \<Rightarrow> (case map_of al key of None \<Rightarrow> 0 | Some v \<Rightarrow> v))"

definition keyMean :: "(Metrics \<Rightarrow> rat Record option) \<Rightarrow> Metrics list \<Rightarrow> string \<Rightarrow> rat" where
  "keyMean field runs key = sum_list (map (\<lambda>m. runValue (field m) key) runs) / of_nat (length runs)"

text \<open>The value the code stores for a key, through the value selector it is given.\<close>

definition keyAverage :: "Metrics list \<Rightarrow> (Metrics \<Rightarrow> string \<Rightarrow> rat option) \<Rightarrow> string \<Rightarrow> rat" where
  "keyAverage ms vsel key = toFixed 2 (sum_list (map (\<lambda>m. orZero (vsel m key)) ms) / of_nat (length ms))"

text \<open>A run that has both dictionaries, as the interface \<open>Metrics\<close> requires.\<close>

definition hasMaps :: "Metrics \<Rightarrow> bool" where
  "hasMaps m = (hostnames (requests m) \<noteq> None \<and> etldPlus1s (requests m) \<noteq> None)"

text \<open>The three relations between the request counts of one record.\<close>

definition requestsInvariant :: "Metrics \<Rightarrow> bool" where
  "requestsInvariant m =
     (blockedRequests (requests m) + notBlockedRequests (requests m) = Requests.totalRequests (requests m) \<and>
      thirdPartyBlockedRequests (requests m) + thirdPartyNotBlockedRequests (requests m)
        = thirdPartyRequests (requests m) \<and>
      thirdPartyRequests (requests m) \<le> Requests.totalRequests (requests m))"

text \<open>The shape of a dictionary of averages: distinct keys, values rounded and positive.\<close>

definition averagedMap :: "rat Record \<Rightarrow> bool" where
  "averagedMap al = (distinct (map fst al) \<and> (\<forall>(k, v) \<in> set al. toFixed 2 v = v \<and> 0 < v))"

text \<open>All entries of a data set, domain after domain.\<close>

definition allEntries :: "MetricsData \<Rightarrow> Metrics list" where
  "allEntries data = concat (map snd data)"

text \<open>The number of distinct keys of an optional dictionary.\<close>

definition keyCount :: "rat Record option \<Rightarrow> nat" where
  "keyCount obj = card (keysOf obj)"

text \<open>
  A data set that is a JavaScript object of JavaScript objects: no domain occurs twice,
  and no key occurs twice in a dictionary of an entry.
\<close>

definition distinctKeys :: "rat Record option \<Rightarrow> bool" where
  "distinctKeys obj = (case obj of None \<Rightarrow> True | Some al \<Rightarrow> distinct (map fst al))"

definition wellFormedData :: "MetricsData \<Rightarrow> bool" where
  "wellFormedData data =
     (distinct (map fst data) \<and>
      list_all (\<lambda>e. distinctKeys (hostnames (requests e)) \<and> distinctKeys (etldPlus1s (requests e)))
        (allEntries data))"

text \<open>\<open>data[d]\<close> as a list of entries, empty for a missing domain.\<close>

definition entriesOf :: "MetricsData \<Rightarrow> string \<Rightarrow> Metrics list" where
  "entriesOf data d = (case map_of data d of Some es \<Rightarrow> es | None \<Rightarrow> [])"

text \<open>A website set of an entity contains a domain; a count map has a positive count for an entity.\<close>

definition reaches :: "string list Record \<Rightarrow> string \<Rightarrow> string \<Rightarrow> bool" where
  "reaches websitesData key d = (case map_of websitesData key of None \<Rightarrow> False | Some websites \<Rightarrow> d \<in> set websites)"

definition counted :: "nat Record \<Rightarrow> string \<Rightarrow> bool" where
  "counted counts key = (case map_of counts key of None \<Rightarrow> False | Some n \<Rightarrow> 0 < n)"

text \<open>The collected data at the end of \<open>processAllDomains\<close>, as \<open>computeStatistics\<close> runs it.\<close>

definition collectedDataOf ::
    "(string \<Rightarrow> string option) \<Rightarrow> MetricsData \<Rightarrow> TrackersData \<Rightarrow> CompaniesData \<Rightarrow> CollectedData" where
  "collectedDataOf getDomain data trackersInfo companiesInfo =
     snd (processAllDomains getDomain (Object_keys data) data trackersInfo companiesInfo
            initializeAggregatedData initializeCollectedData)"

text \<open>The tracker a hostname resolves to, by the exact tier or else by the eTLD+1 tier.\<close>

definition resolvedTracker :: "(string \<Rightarrow> string option) \<Rightarrow> TrackersData \<Rightarrow> string \<Rightarrow> TrackerInfo option" where
  "resolvedTracker getDomain trackersInfo hostname =
     (case findTracker trackersInfo hostname of
        Some tracker \<Rightarrow> Some tracker
      | None \<Rightarrow>
          (case getDomain hostname of
             None \<Rightarrow> None
           | Some etldPlus1 \<Rightarrow> if etldPlus1 = [] then None else findTracker trackersInfo etldPlus1))"

text \<open>The callback that \<open>processTrackers\<close> and \<open>processCompanies\<close> share, up to the resolver.\<close>

definition tallyStep ::
    "(string \<Rightarrow> string option) \<Rightarrow> string \<Rightarrow> rat Record \<times> string list Record \<Rightarrow> string \<times> rat
      \<Rightarrow> rat Record \<times> string list Record" where
  "tallyStep nameOf d = (\<lambda>(td, twd) (hostname, count).
        case nameOf hostname of
          None \<Rightarrow> (td, twd)
        | Some entity \<Rightarrow>
            if entity \<noteq> [] then
              (AList.update entity (orZero (map_of td entity) + count) td, addWebsite entity d twd)
            else (td, twd))"

section \<open>Sample data\<close>

text \<open>\<open>baseMetric\<close> of the repository's tests of \<open>computeAverageMetrics\<close>, and variations of it.\<close>

definition baseMetric :: Metrics where
  "baseMetric = \<lparr>
     Metrics.url = ''http://example.com'', domain = ''example.com'',
     measureTime = ''2024-01-01T00:00:00Z'', testEnv = ''extension'', method_name = ''puppeteer'',
     domContentLoadTimeMs = Some 100, loadTimeMs = Some 200,
     weight = \<lparr>Weight.totalBytes = 1000, thirdPartyBytes = Some 500\<rparr>,
     requests = \<lparr>Requests.totalRequests = 10, blockedRequests = 2, notBlockedRequests = 8,
       thirdPartyRequests = 5, thirdPartyBlockedRequests = 1, thirdPartyNotBlockedRequests = 4,
       hostnames = Some [], etldPlus1s = Some []\<rparr>\<rparr>"

definition withMaps :: "rat Record \<Rightarrow> rat Record \<Rightarrow> Metrics" where
  "withMaps hs es = baseMetric\<lparr>requests := (requests baseMetric)\<lparr>hostnames := Some hs, etldPlus1s := Some es\<rparr>\<rparr>"

definition withCounts :: "rat \<Rightarrow> rat \<Rightarrow> rat \<Rightarrow> rat \<Rightarrow> rat \<Rightarrow> rat \<Rightarrow> Metrics" where
  "withCounts t b nb tp tpb tpnb = baseMetric\<lparr>requests := (requests baseMetric)\<lparr>
     Requests.totalRequests := t, blockedRequests := b, notBlockedRequests := nb,
     thirdPartyRequests := tp, thirdPartyBlockedRequests := tpb, thirdPartyNotBlockedRequests := tpnb\<rparr>\<rparr>"

text \<open>
  \<open>createTestMetrics\<close> and the two-domain data of the repository's test of
  \<open>computeStatistics\<close>.
\<close>

definition createTestMetrics :: Metrics where
  "createTestMetrics = \<lparr>
     Metrics.url = ''https://example.com'', domain = ''example.com'',
     measureTime = ''2024-01-01T00:00:00Z'', testEnv = ''baseline'', method_name = ''puppeteer'',
     domContentLoadTimeMs = Some 1000, loadTimeMs = Some 2000,
     weight = \<lparr>Weight.totalBytes = 1000, thirdPartyBytes = Some 500\<rparr>,
     requests = \<lparr>Requests.totalRequests = 10, blockedRequests = 0, notBlockedRequests = 10,
       thirdPartyRequests = 5, thirdPartyBlockedRequests = 0, thirdPartyNotBlockedRequests = 5,
       hostnames = Some [], etldPlus1s = Some []\<rparr>\<rparr>"

definition testData :: MetricsData where
  "testData =
     [(''example.com'',
       [createTestMetrics\<lparr>domContentLoadTimeMs := Some 1000, loadTimeMs := Some 2000,
          weight := \<lparr>Weight.totalBytes = 1500, thirdPartyBytes = Some 500\<rparr>,
          requests := \<lparr>Requests.totalRequests = 20, blockedRequests = 5, notBlockedRequests = 15,
            thirdPartyRequests = 10, thirdPartyBlockedRequests = 2, thirdPartyNotBlockedRequests = 8,
            hostnames = Some [(''example.com'', 10), (''analytics.com'', 5), (''cdn.example.com'', 5)],
            etldPlus1s = Some [(''example.com'', 15), (''analytics.com'', 5)]\<rparr>\<rparr>]),
      (''test.com'',
       [createTestMetrics\<lparr>domContentLoadTimeMs := Some 500, loadTimeMs := Some 1000,
          weight := \<lparr>Weight.totalBytes = 1000, thirdPartyBytes = Some 300\<rparr>,
          requests := \<lparr>Requests.totalRequests = 10, blockedRequests = 2, notBlockedRequests = 8,
            thirdPartyRequests = 4, thirdPartyBlockedRequests = 1, thirdPartyNotBlockedRequests = 3,
            hostnames = Some [(''test.com'', 6), (''analytics.com'', 4)],
            etldPlus1s = Some [(''test.com'', 6), (''analytics.com'', 4)]\<rparr>\<rparr>])]"

text \<open>Empty reference tables.\<close>

definition noTrackers :: TrackersData where
  "noTrackers = \<lparr>TrackersData.timeUpdated = [], categories = [], trackers = [], trackerDomains = []\<rparr>"

definition noCompanies :: CompaniesData where
  "noCompanies = \<lparr>CompaniesData.timeUpdated = [], companies = []\<rparr>"

text \<open>What \<open>getDomain\<close> of \<open>tldts\<close> returns on the hostnames of the samples.\<close>

definition sampleGetDomain :: "string \<Rightarrow> string option" where
  "sampleGetDomain hostname =
     (if hostname = ''localhost'' then None
      else if hostname = ''192.168.0.1'' then None
      else if hostname = ''static.unknown-cdn.com'' then Some ''unknown-cdn.com''
      else if hostname = ''cdn.example.com'' then Some ''example.com''
      else if hostname = ''t.example.com'' then Some ''example.com''
      else Some hostname)"

text \<open>One domain whose entry has fractional request counts, as an averaged record may.\<close>

definition fractionalData :: MetricsData where
  "fractionalData = [(''example.com'', [withCounts (83 / 4) (21 / 4) (31 / 2) 0 0 0])]"

text \<open>Two input files, each with one domain above the threshold, and no domain in common.\<close>

definition disjointInputs :: "MetricsData list" where
  "disjointInputs =
     [[(''example.com'', [withCounts 25 0 25 0 0 0])], [(''test.com'', [withCounts 30 0 30 0 0 0])]]"

text \<open>
  A page that talks to a host of an unknown registrable domain and to two hosts without
  one; two trackers, one without a company; a page that talks to both.
\<close>

definition unresolvedHostsData :: MetricsData where
  "unresolvedHostsData =
     [(''example.com'',
       [withMaps [(''static.unknown-cdn.com'', 4), (''localhost'', 3), (''192.168.0.1'', 2)] []])]"

definition exampleTracker :: TrackerInfo where
  "exampleTracker = \<lparr>TrackerInfo.name = ''Example Tracker'', categoryId = 6, TrackerInfo.url = None,
     companyId = None, TrackerInfo.source = None\<rparr>"

definition analyticsTracker :: TrackerInfo where
  "analyticsTracker = \<lparr>TrackerInfo.name = ''Google Analytics'', categoryId = 6,
     TrackerInfo.url = Some ''https://marketingplatform.google.com/about/analytics/'',
     companyId = Some ''google'', TrackerInfo.source = None\<rparr>"

definition sampleTrackers :: TrackersData where
  "sampleTrackers = \<lparr>TrackersData.timeUpdated = ''2024-01-01T00:00:00Z'', categories = [(''6'', ''Site Analytics'')],
     trackers = [(''example_tracker'', exampleTracker), (''google_analytics'', analyticsTracker)],
     trackerDomains = [(''t.example.com'', ''example_tracker''), (''analytics.com'', ''google_analytics'')]\<rparr>"

definition sampleCompanies :: CompaniesData where
  "sampleCompanies = \<lparr>CompaniesData.timeUpdated = ''2024-01-01T00:00:00Z'',
     companies =
       [(''google'', \<lparr>CompanyInfo.name = ''Google'', websiteUrl = None, description = None,
           CompanyInfo.source = None\<rparr>),
        (''example'', \<lparr>CompanyInfo.name = ''Example Inc'', websiteUrl = None, description = None,
           CompanyInfo.source = None\<rparr>)]\<rparr>"

definition trackedData :: MetricsData where
  "trackedData = [(''news.org'', [withMaps [(''t.example.com'', 2), (''analytics.com'', 4)] []])]"

section \<open>Properties of the run averager\<close>

lemma floor_half_int: "\<lfloor>(of_int k :: rat) + 1 / 2\<rfloor> = k"
  by linarith

lemma floor_numeral_div_rat: "\<lfloor>(numeral a / numeral b :: rat)\<rfloor> = numeral a div numeral b"
  by (metis floor_divide_of_int_eq of_int_numeral)

lemma floor_one_div_rat: "\<lfloor>(1 / numeral b :: rat)\<rfloor> = 1 div numeral b"
  by (metis floor_divide_of_int_eq of_int_numeral of_int_1)

lemma toFixed_grid: "\<exists>k::int. toFixed d x = of_int k / 10 ^ d"
proof (cases "x < 0")
  case True
  then have "toFixed d x = of_int (- \<lfloor>(- x) * 10 ^ d + 1 / 2\<rfloor>) / 10 ^ d"
    by (simp add: toFixed_def)
  then show ?thesis by blast
next
  case False
  then have "toFixed d x = of_int \<lfloor>x * 10 ^ d + 1 / 2\<rfloor> / 10 ^ d"
    by (simp add: toFixed_def)
  then show ?thesis by blast
qed

lemma toFixed_of_grid: "toFixed d (of_int k / 10 ^ d) = of_int k / 10 ^ d"
proof (cases "k < 0")
  case True
  then have neg: "(of_int k / 10 ^ d :: rat) < 0"
    by (simp add: divide_neg_pos)
  have "(- (of_int k / 10 ^ d)) * 10 ^ d = (of_int (- k) :: rat)" by simp
  then have "\<lfloor>(- (of_int k / 10 ^ d :: rat)) * 10 ^ d + 1 / 2\<rfloor> = - k"
    using floor_half_int [of "- k"] by simp
  with neg show ?thesis by (simp add: toFixed_def)
next
  case False
  then have nonneg: "\<not> (of_int k / 10 ^ d :: rat) < 0"
    by (simp add: not_less)
  have "(of_int k / 10 ^ d) * 10 ^ d = (of_int k :: rat)" by simp
  then have "\<lfloor>(of_int k / 10 ^ d :: rat) * 10 ^ d + 1 / 2\<rfloor> = k"
    using floor_half_int [of k] by simp
  with nonneg show ?thesis by (simp add: toFixed_def)
qed

lemma toFixed_idem: "toFixed d (toFixed d x) = toFixed d x"
proof -
  obtain k :: int where "toFixed d x = of_int k / 10 ^ d"
    using toFixed_grid by blast
  then show ?thesis by (simp add: toFixed_of_grid)
qed

lemma round_half_error: "\<bar>of_int \<lfloor>(y::rat) + 1 / 2\<rfloor> - y\<bar> \<le> 1 / 2"
  by linarith

lemma toFixed_error: "\<bar>toFixed d x - x\<bar> \<le> 1 / (2 * 10 ^ d)"
proof -
  have pos: "(0::rat) < 10 ^ d" by simp
  have scale: "\<bar>toFixed d x - x\<bar> * 10 ^ d = \<bar>toFixed d x * 10 ^ d - x * 10 ^ d\<bar>"
    by (simp add: left_diff_distrib [symmetric] abs_mult)
  have "\<bar>toFixed d x * 10 ^ d - x * 10 ^ d\<bar> \<le> 1 / 2"
  proof (cases "x < 0")
    case True
    define z where "z = (- x) * 10 ^ d"
    have xz: "x * 10 ^ d = - z" by (simp add: z_def)
    from True have "toFixed d x * 10 ^ d = - of_int \<lfloor>z + 1 / 2\<rfloor>"
      by (simp add: toFixed_def z_def)
    then show ?thesis using round_half_error [of z] xz by linarith
  next
    case False
    then have "toFixed d x * 10 ^ d = of_int \<lfloor>x * 10 ^ d + 1 / 2\<rfloor>"
      by (simp add: toFixed_def)
    then show ?thesis using round_half_error [of "x * 10 ^ d"] by simp
  qed
  with scale have "\<bar>toFixed d x - x\<bar> * 10 ^ d \<le> 1 / 2" by simp
  then have "\<bar>toFixed d x - x\<bar> \<le> (1 / 2) / 10 ^ d"
    using pos by (simp add: pos_le_divide_eq)
  then show ?thesis by simp
qed

lemma toFixed_nonneg: "0 \<le> x \<Longrightarrow> 0 \<le> toFixed d x"
  by (simp add: toFixed_def)

lemma toFixed_neg: "x < 0 \<Longrightarrow> toFixed d x \<le> 0"
proof -
  assume "x < 0"
  then have "0 \<le> (- x) * 10 ^ d" by (intro mult_nonneg_nonneg) simp_all
  then have "0 \<le> (- x) * 10 ^ d + 1 / 2" by linarith
  then have "0 \<le> \<lfloor>(- x) * 10 ^ d + 1 / 2\<rfloor>" by simp
  with \<open>x < 0\<close> show ?thesis by (simp add: toFixed_def)
qed

lemma toFixed_mono: "x \<le> y \<Longrightarrow> toFixed d x \<le> toFixed d y"
proof -
  assume le: "x \<le> y"
  consider "y < 0" | "x < 0" "0 \<le> y" | "0 \<le> x" by linarith
  then show ?thesis
  proof cases
    case 1
    with le have "x < 0" by simp
    have "(- y) * 10 ^ d + 1 / 2 \<le> (- x) * 10 ^ d + 1 / 2" using le by simp
    then have "\<lfloor>(- y) * 10 ^ d + 1 / 2\<rfloor> \<le> \<lfloor>(- x) * 10 ^ d + 1 / 2\<rfloor>"
      by (rule floor_mono)
    then show ?thesis using 1 \<open>x < 0\<close>
      by (simp add: toFixed_def divide_right_mono)
  next
    case 2
    then show ?thesis using toFixed_neg [of x d] toFixed_nonneg [of y d] by simp
  next
    case 3
    with le have "0 \<le> y" by simp
    have "x * 10 ^ d + 1 / 2 \<le> y * 10 ^ d + 1 / 2" using le by simp
    then have "\<lfloor>x * 10 ^ d + 1 / 2\<rfloor> \<le> \<lfloor>y * 10 ^ d + 1 / 2\<rfloor>"
      by (rule floor_mono)
    then show ?thesis using 3 \<open>0 \<le> y\<close>
      by (simp add: toFixed_def divide_right_mono not_less)
  qed
qed

lemma toFixed_zero: "toFixed d 0 = 0"
proof -
  have "\<lfloor>(1 / 2 :: rat)\<rfloor> = 0" by linarith
  then show ?thesis by (simp add: toFixed_def)
qed

text \<open>A rounded value is positive exactly from \<open>0.005\<close> on.\<close>

lemma toFixed_pos_iff: "(0 < toFixed 2 x) = (1 / 200 \<le> x)"
proof (cases "x < 0")
  case True
  with toFixed_neg [of x 2] show ?thesis by simp
next
  case False
  define n where "n = \<lfloor>x * 100 + 1 / 2\<rfloor>"
  from False have t: "toFixed 2 x = of_int n / 100" by (simp add: toFixed_def n_def)
  have "(0 < toFixed 2 x) = (0 < n)" unfolding t by simp
  also have "\<dots> = (1 \<le> n)" by linarith
  also have "\<dots> = (of_int 1 \<le> x * 100 + 1 / 2)" unfolding n_def by (rule le_floor_iff)
  also have "\<dots> = (1 / 200 \<le> x)" by auto
  finally show ?thesis .
qed

lemma foldl_add_sum_list: "foldl (\<lambda>acc x. acc + f x) a xs = (a::rat) + sum_list (map f xs)"
  by (induction xs arbitrary: a) (simp_all add: add.assoc)

lemma calculateAverage_eq:
  "calculateAverage ms sel =
     (if definedValues (map sel ms) = [] then 0
      else toFixed 2 (sum_list (definedValues (map sel ms)) / of_nat (length (definedValues (map sel ms)))))"
proof -
  have vals: "map (\<lambda>m. orZero (sel m)) (filter (\<lambda>m. sel m \<noteq> None) ms) = definedValues (map sel ms)"
    by (induction ms) auto
  have len: "length (filter (\<lambda>m. sel m \<noteq> None) ms) = length (definedValues (map sel ms))"
    using arg_cong [OF vals, of length] by simp
  have nil: "(filter (\<lambda>m. sel m \<noteq> None) ms = []) = (definedValues (map sel ms) = [])"
    using len by (metis length_0_conv)
  show ?thesis
    unfolding calculateAverage_def Let_def foldl_add_sum_list
    using vals len nil by simp
qed

lemma calculateAverage_all_defined:
  "ms \<noteq> [] \<Longrightarrow> calculateAverage ms (\<lambda>m. Some (f m)) = toFixed 2 (sum_list (map f ms) / of_nat (length ms))"
proof -
  assume "ms \<noteq> []"
  moreover have "definedValues (map (\<lambda>m. Some (f m)) ms) = map f ms"
    by (induction ms) simp_all
  ultimately show ?thesis by (simp add: calculateAverage_eq)
qed

lemma calculateAverage_fixed: "toFixed 2 (calculateAverage ms sel) = calculateAverage ms sel"
  by (simp add: calculateAverage_eq toFixed_idem toFixed_zero)

lemma calculateAverage_single:
  "sel m = Some v \<Longrightarrow> toFixed 2 v = v \<Longrightarrow> calculateAverage [m] sel = v"
  by (simp add: calculateAverage_eq)

lemma foldl_Set_add_set: "set (foldl (\<lambda>ks key. Set_add key ks) keys xs) = set keys \<union> set xs"
  by (induction xs arbitrary: keys) (auto simp: Set_add_def)

lemma foldl_Set_add_distinct: "distinct keys \<Longrightarrow> distinct (foldl (\<lambda>ks key. Set_add key ks) keys xs)"
  by (induction xs arbitrary: keys) (auto simp: Set_add_def)

lemma foldl_Set_add_fresh:
  "distinct xs \<Longrightarrow> set keys \<inter> set xs = {} \<Longrightarrow> foldl (\<lambda>ks key. Set_add key ks) keys xs = keys @ xs"
  by (induction xs arbitrary: keys) (auto simp: Set_add_def)

lemma collectUniqueKeys_from_ok:
  "\<forall>m \<in> set ms. sel m \<noteq> None \<Longrightarrow>
   \<exists>ks. collectUniqueKeys_from keys ms sel = Inr ks \<and>
        set ks = set keys \<union> (\<Union>m \<in> set ms. keysOf (sel m)) \<and>
        (distinct keys \<longrightarrow> distinct ks)"
proof (induction ms arbitrary: keys)
  case Nil
  then show ?case by simp
next
  case (Cons m ms)
  then obtain obj where obj: "sel m = Some obj" by auto
  let ?keys' = "foldl (\<lambda>ks key. Set_add key ks) keys (Object_keys obj)"
  from Cons.prems have "\<forall>m \<in> set ms. sel m \<noteq> None" by simp
  from Cons.IH [OF this, of ?keys'] obtain ks where
    ks: "collectUniqueKeys_from ?keys' ms sel = Inr ks"
        "set ks = set ?keys' \<union> (\<Union>m \<in> set ms. keysOf (sel m))"
        "distinct ?keys' \<longrightarrow> distinct ks"
    by blast
  have "set ?keys' = set keys \<union> keysOf (sel m)"
    by (simp add: foldl_Set_add_set obj keysOf_def Object_keys_def)
  with ks show ?case
    by (auto simp: obj foldl_Set_add_distinct)
qed

lemma collectUniqueKeys_ok:
  "\<forall>m \<in> set ms. sel m \<noteq> None \<Longrightarrow>
   \<exists>ks. collectUniqueKeys ms sel = Inr ks \<and> set ks = (\<Union>m \<in> set ms. keysOf (sel m)) \<and> distinct ks"
  using collectUniqueKeys_from_ok [of ms sel "[]"] by (simp add: collectUniqueKeys_def)

lemma collectUniqueKeys_single:
  "sel m = Some obj \<Longrightarrow> distinct (map fst obj) \<Longrightarrow> collectUniqueKeys [m] sel = Inr (map fst obj)"
  by (simp add: collectUniqueKeys_def Object_keys_def foldl_Set_add_fresh)

lemma update_fresh: "k \<notin> fst ` set al \<Longrightarrow> AList.update k v al = al @ [(k, v)]"
  by (induction al) auto

lemma computeAveragesForKeys_foldl:
  "distinct keys \<Longrightarrow> fst ` set acc \<inter> set keys = {} \<Longrightarrow>
   foldl (\<lambda>averages key.
        let sum = foldl (\<lambda>acc metric. acc + orZero (vsel metric key)) 0 ms;
            average = toFixed 2 (sum / of_nat (length ms))
        in if average > 0 then AList.update key average averages else averages) acc keys
   = acc @ map (\<lambda>k. (k, keyAverage ms vsel k)) (filter (\<lambda>k. keyAverage ms vsel k > 0) keys)"
proof (induction keys arbitrary: acc)
  case Nil
  then show ?case by simp
next
  case (Cons k keys)
  have fresh: "k \<notin> fst ` set acc" using Cons.prems by auto
  show ?case
  proof (cases "keyAverage ms vsel k > 0")
    case True
    have "fst ` set (acc @ [(k, keyAverage ms vsel k)]) \<inter> set keys = {}"
      using Cons.prems by auto
    from Cons.IH [OF _ this] Cons.prems(1) True fresh show ?thesis
      by (simp add: Let_def foldl_add_sum_list keyAverage_def [symmetric] update_fresh)
  next
    case False
    have "fst ` set acc \<inter> set keys = {}" using Cons.prems by auto
    from Cons.IH [OF _ this] Cons.prems(1) False show ?thesis
      by (simp add: Let_def foldl_add_sum_list keyAverage_def [symmetric])
  qed
qed

lemma computeAveragesForKeys_eq:
  "distinct keys \<Longrightarrow>
   computeAveragesForKeys ms keys vsel =
     map (\<lambda>k. (k, keyAverage ms vsel k)) (filter (\<lambda>k. keyAverage ms vsel k > 0) keys)"
  unfolding computeAveragesForKeys_def
  using computeAveragesForKeys_foldl [of keys "[]" vsel ms] by simp

lemma map_of_key_table:
  "map_of (map (\<lambda>k. (k, f k)) (filter P keys)) k = (if k \<in> set keys \<and> P k then Some (f k) else None)"
  by (induction keys) auto

lemma computeHostnameAverages_ok:
  assumes "\<forall>m \<in> set ms. hasMaps m"
  shows "\<exists>ks. distinct ks \<and> set ks = (\<Union>m \<in> set ms. keysOf (hostnames (requests m))) \<and>
           computeHostnameAverages ms =
             Inr (map (\<lambda>k. (k, keyAverage ms hostnameValue k)) (filter (\<lambda>k. keyAverage ms hostnameValue k > 0) ks))"
proof -
  from assms have "\<forall>m \<in> set ms. hostnames (requests m) \<noteq> None" by (simp add: hasMaps_def)
  from collectUniqueKeys_ok [of ms "\<lambda>m. hostnames (requests m)", OF this]
  obtain ks where ks: "collectUniqueKeys ms (\<lambda>m. hostnames (requests m)) = Inr ks"
      "set ks = (\<Union>m \<in> set ms. keysOf (hostnames (requests m)))" "distinct ks"
    by blast
  then show ?thesis
    by (auto simp: computeHostnameAverages_def computeAveragesForKeys_eq)
qed

lemma computeEtldPlusOneAverages_ok:
  assumes "\<forall>m \<in> set ms. hasMaps m"
  shows "\<exists>ks. distinct ks \<and> set ks = (\<Union>m \<in> set ms. keysOf (etldPlus1s (requests m))) \<and>
           computeEtldPlusOneAverages ms =
             Inr (map (\<lambda>k. (k, keyAverage ms etldPlus1Value k)) (filter (\<lambda>k. keyAverage ms etldPlus1Value k > 0) ks))"
proof -
  from assms have "\<forall>m \<in> set ms. etldPlus1s (requests m) \<noteq> None" by (simp add: hasMaps_def)
  from collectUniqueKeys_ok [of ms "\<lambda>m. etldPlus1s (requests m)", OF this]
  obtain ks where ks: "collectUniqueKeys ms (\<lambda>m. etldPlus1s (requests m)) = Inr ks"
      "set ks = (\<Union>m \<in> set ms. keysOf (etldPlus1s (requests m)))" "distinct ks"
    by blast
  then show ?thesis
    by (auto simp: computeEtldPlusOneAverages_def computeAveragesForKeys_eq)
qed

lemma computeAverageMetrics_Inr:
  assumes "computeHostnameAverages (m0 # rest) = Inr ha"
      and "computeEtldPlusOneAverages (m0 # rest) = Inr ea"
  shows "\<exists>r. computeAverageMetrics (m0 # rest) = Inr r \<and>
    Metrics.url r = Metrics.url m0 \<and> domain r = domain m0 \<and> measureTime r = measureTime m0 \<and>
    testEnv r = testEnv m0 \<and> method_name r = method_name m0 \<and>
    domContentLoadTimeMs r = Some (calculateAverage (m0 # rest) domContentLoadTimeMs) \<and>
    loadTimeMs r = Some (calculateAverage (m0 # rest) loadTimeMs) \<and>
    Weight.totalBytes (weight r) = calculateAverage (m0 # rest) (\<lambda>m. Some (Weight.totalBytes (weight m))) \<and>
    thirdPartyBytes (weight r) = Some (calculateAverage (m0 # rest) (\<lambda>m. thirdPartyBytes (weight m))) \<and>
    Requests.totalRequests (requests r) = calculateAverage (m0 # rest) (\<lambda>m. Some (Requests.totalRequests (requests m))) \<and>
    blockedRequests (requests r) = calculateAverage (m0 # rest) (\<lambda>m. Some (blockedRequests (requests m))) \<and>
    notBlockedRequests (requests r) = calculateAverage (m0 # rest) (\<lambda>m. Some (notBlockedRequests (requests m))) \<and>
    thirdPartyRequests (requests r) = calculateAverage (m0 # rest) (\<lambda>m. Some (thirdPartyRequests (requests m))) \<and>
    thirdPartyBlockedRequests (requests r) =
      calculateAverage (m0 # rest) (\<lambda>m. Some (thirdPartyBlockedRequests (requests m))) \<and>
    thirdPartyNotBlockedRequests (requests r) =
      calculateAverage (m0 # rest) (\<lambda>m. Some (thirdPartyNotBlockedRequests (requests m))) \<and>
    hostnames (requests r) = Some ha \<and> etldPlus1s (requests r) = Some ea"
  using assms by (simp add: Let_def)

text \<open>
  C7. For a non-empty sequence of runs (each with its two dictionaries),
  \<open>computeAverageMetrics\<close> returns a record whose \<open>loadTimeMs\<close> is the arithmetic mean of
  the \<open>loadTimeMs\<close> values of exactly the runs where the field is defined, rounded to two
  decimals (that is \<open>toFixed 2\<close>: a multiple of \<open>0.01\<close> at most \<open>0.005\<close> from the mean); runs
  without the field do not count in the denominator, and if no run has it the result
  is \<open>0\<close>.
\<close>

theorem computeAverageMetrics_loadTimeMs:
  assumes "runs \<noteq> []" and "\<forall>m \<in> set runs. hasMaps m"
  shows "\<exists>r v. computeAverageMetrics runs = Inr r \<and> loadTimeMs r = Some v \<and>
    (let vs = definedValues (map loadTimeMs runs) in
     if vs = [] then v = 0
     else v = toFixed 2 (sum_list vs / of_nat (length vs)) \<and>
          \<bar>v - sum_list vs / of_nat (length vs)\<bar> \<le> 1 / 200 \<and>
          (\<exists>k::int. v = of_int k / 100))"
proof -
  from assms(1) obtain m0 rest where runs: "runs = m0 # rest" by (cases runs) auto
  from computeHostnameAverages_ok [OF assms(2)] obtain ha where ha: "computeHostnameAverages runs = Inr ha"
    by blast
  from computeEtldPlusOneAverages_ok [OF assms(2)] obtain ea where ea: "computeEtldPlusOneAverages runs = Inr ea"
    by blast
  from computeAverageMetrics_Inr [OF ha [unfolded runs] ea [unfolded runs]]
  obtain r where r: "computeAverageMetrics runs = Inr r"
      "loadTimeMs r = Some (calculateAverage runs loadTimeMs)"
    unfolding runs by blast
  have err: "\<bar>toFixed 2 x - x\<bar> \<le> 1 / 200" for x
    using toFixed_error [of 2 x] by simp
  have grid: "\<exists>k::int. toFixed 2 x = of_int k / 100" for x
    using toFixed_grid [of 2 x] by simp
  show ?thesis
    using r err grid by (simp add: calculateAverage_eq Let_def)
qed

lemmas toFixed_eval = toFixed_def floor_numeral_div_rat floor_one_div_rat

text \<open>The mean of \<open>100\<close> and \<open>201\<close>, the run without the field left out.\<close>

theorem computeAverageMetrics_loadTimeMs_witness:
  "\<exists>r. computeAverageMetrics
          [baseMetric\<lparr>loadTimeMs := Some 100\<rparr>, baseMetric\<lparr>loadTimeMs := None\<rparr>,
           baseMetric\<lparr>loadTimeMs := Some 201\<rparr>] = Inr r \<and>
        loadTimeMs r = Some (301 / 2)"
proof -
  let ?runs = "[baseMetric\<lparr>loadTimeMs := Some 100\<rparr>, baseMetric\<lparr>loadTimeMs := None\<rparr>,
           baseMetric\<lparr>loadTimeMs := Some 201\<rparr>]"
  have ne: "?runs \<noteq> []" by simp
  have maps: "\<forall>m \<in> set ?runs. hasMaps m" by (simp add: hasMaps_def baseMetric_def)
  have vs: "definedValues (map loadTimeMs ?runs) = [100, 201]"
    by simp
  have "toFixed 2 ((100 + 201) / 2) = 301 / 2" by (simp add: toFixed_eval)
  with computeAverageMetrics_loadTimeMs [OF ne maps] vs show ?thesis
    by (auto simp: Let_def)
qed

lemma keyAverage_keyMean:
  assumes "\<And>m k. orZero (vsel m k) = runValue (field m) k"
  shows "keyAverage runs vsel k = toFixed 2 (keyMean field runs k)"
  by (simp add: keyAverage_def keyMean_def assms)

lemma keyMean_outside:
  assumes "k \<notin> (\<Union>m \<in> set runs. keysOf (field m))"
  shows "keyMean field runs k = 0"
proof -
  have "runValue (field m) k = 0" if "m \<in> set runs" for m
  proof (cases "field m")
    case None
    then show ?thesis by (simp add: runValue_def)
  next
    case (Some al)
    from assms that have "k \<notin> keysOf (field m)" by blast
    with Some have "k \<notin> fst ` set al" by (simp add: keysOf_def)
    then have "map_of al k = None" by (simp add: map_of_eq_None_iff)
    with Some show ?thesis by (simp add: runValue_def)
  qed
  then have "map (\<lambda>m. runValue (field m) k) runs = map (\<lambda>m. 0) runs" by simp
  then have "sum_list (map (\<lambda>m. runValue (field m) k) runs) = 0" by (simp only: sum_list_0)
  then show ?thesis by (simp add: keyMean_def)
qed

lemma averaged_table:
  assumes ks: "set ks = (\<Union>m \<in> set runs. keysOf (field m))"
      and vs: "\<And>m k. orZero (vsel m k) = runValue (field m) k"
      and out: "out = map (\<lambda>k. (k, keyAverage runs vsel k)) (filter (\<lambda>k. keyAverage runs vsel k > 0) ks)"
  shows "\<forall>k. map_of out k =
       (if k \<in> (\<Union>m \<in> set runs. keysOf (field m)) \<and> 0 < toFixed 2 (keyMean field runs k)
        then Some (toFixed 2 (keyMean field runs k)) else None)"
    and "\<forall>k v. map_of out k = Some v \<longrightarrow>
       0 < v \<and> \<bar>v - keyMean field runs k\<bar> \<le> 1 / 200 \<and> (\<exists>n::int. v = of_int n / 100)"
    and "\<forall>k. (map_of out k \<noteq> None) = (1 / 200 \<le> keyMean field runs k)"
proof -
  have ka: "keyAverage runs vsel k = toFixed 2 (keyMean field runs k)" for k
    by (rule keyAverage_keyMean [OF vs])
  show tab: "\<forall>k. map_of out k =
       (if k \<in> (\<Union>m \<in> set runs. keysOf (field m)) \<and> 0 < toFixed 2 (keyMean field runs k)
        then Some (toFixed 2 (keyMean field runs k)) else None)"
    unfolding out by (simp add: map_of_key_table ks ka)
  have err: "\<bar>toFixed 2 x - x\<bar> \<le> 1 / 200" for x
    using toFixed_error [of 2 x] by simp
  have grid: "\<exists>n::int. toFixed 2 x = of_int n / 100" for x
    using toFixed_grid [of 2 x] by simp
  show "\<forall>k v. map_of out k = Some v \<longrightarrow>
       0 < v \<and> \<bar>v - keyMean field runs k\<bar> \<le> 1 / 200 \<and> (\<exists>n::int. v = of_int n / 100)"
    using tab err grid by (auto split: if_splits)
  show "\<forall>k. (map_of out k \<noteq> None) = (1 / 200 \<le> keyMean field runs k)"
  proof
    fix k
    show "(map_of out k \<noteq> None) = (1 / 200 \<le> keyMean field runs k)"
    proof (cases "k \<in> (\<Union>m \<in> set runs. keysOf (field m))")
      case True
      with tab show ?thesis by (simp add: toFixed_pos_iff)
    next
      case False
      from keyMean_outside [OF False] False tab show ?thesis by simp
    qed
  qed
qed

text \<open>
  C1. For a non-empty sequence of runs, the \<open>hostnames\<close> dictionary of the record returned
  by \<open>computeAverageMetrics\<close> is computed over the union of the keys of all runs: a key is
  in it if and only if it is a key of some run and its average is strictly greater
  than \<open>0\<close>, and its value is that average. The average of a key is the sum of the values
  stored under it in the \<open>hostnames\<close> dictionaries of the runs, a run without the key
  counting \<open>0\<close>, divided by the number of all runs and rounded to two decimals: it is
  \<open>toFixed 2\<close> of the quotient, a multiple of \<open>0.01\<close> at most \<open>0.005\<close> from it, and it is
  positive exactly when the quotient is at least \<open>0.005\<close>. The same holds of \<open>etldPlus1s\<close>
  with the \<open>etldPlus1s\<close> dictionaries of the runs.
\<close>

theorem computeAverageMetrics_key_averages:
  assumes "runs \<noteq> []" and "\<forall>m \<in> set runs. hasMaps m"
  shows "\<exists>r hs es. computeAverageMetrics runs = Inr r \<and>
    hostnames (requests r) = Some hs \<and> etldPlus1s (requests r) = Some es \<and>
    (\<forall>k. map_of hs k =
       (if k \<in> (\<Union>m \<in> set runs. keysOf (hostnames (requests m))) \<and>
           0 < toFixed 2 (keyMean (\<lambda>m. hostnames (requests m)) runs k)
        then Some (toFixed 2 (keyMean (\<lambda>m. hostnames (requests m)) runs k)) else None)) \<and>
    (\<forall>k v. map_of hs k = Some v \<longrightarrow>
       0 < v \<and> \<bar>v - keyMean (\<lambda>m. hostnames (requests m)) runs k\<bar> \<le> 1 / 200 \<and>
       (\<exists>n::int. v = of_int n / 100)) \<and>
    (\<forall>k. (map_of hs k \<noteq> None) = (1 / 200 \<le> keyMean (\<lambda>m. hostnames (requests m)) runs k)) \<and>
    (\<forall>k. map_of es k =
       (if k \<in> (\<Union>m \<in> set runs. keysOf (etldPlus1s (requests m))) \<and>
           0 < toFixed 2 (keyMean (\<lambda>m. etldPlus1s (requests m)) runs k)
        then Some (toFixed 2 (keyMean (\<lambda>m. etldPlus1s (requests m)) runs k)) else None)) \<and>
    (\<forall>k v. map_of es k = Some v \<longrightarrow>
       0 < v \<and> \<bar>v - keyMean (\<lambda>m. etldPlus1s (requests m)) runs k\<bar> \<le> 1 / 200 \<and>
       (\<exists>n::int. v = of_int n / 100)) \<and>
    (\<forall>k. (map_of es k \<noteq> None) = (1 / 200 \<le> keyMean (\<lambda>m. etldPlus1s (requests m)) runs k))"
proof -
  from assms(1) obtain m0 rest where runs: "runs = m0 # rest" by (cases runs) auto
  from computeHostnameAverages_ok [OF assms(2)] obtain hks where
    hks: "distinct hks" "set hks = (\<Union>m \<in> set runs. keysOf (hostnames (requests m)))"
      "computeHostnameAverages runs =
         Inr (map (\<lambda>k. (k, keyAverage runs hostnameValue k)) (filter (\<lambda>k. keyAverage runs hostnameValue k > 0) hks))"
    by blast
  from computeEtldPlusOneAverages_ok [OF assms(2)] obtain eks where
    eks: "distinct eks" "set eks = (\<Union>m \<in> set runs. keysOf (etldPlus1s (requests m)))"
      "computeEtldPlusOneAverages runs =
         Inr (map (\<lambda>k. (k, keyAverage runs etldPlus1Value k)) (filter (\<lambda>k. keyAverage runs etldPlus1Value k > 0) eks))"
    by blast
  define hs where
    "hs = map (\<lambda>k. (k, keyAverage runs hostnameValue k)) (filter (\<lambda>k. keyAverage runs hostnameValue k > 0) hks)"
  define es where
    "es = map (\<lambda>k. (k, keyAverage runs etldPlus1Value k)) (filter (\<lambda>k. keyAverage runs etldPlus1Value k > 0) eks)"
  from computeAverageMetrics_Inr [OF hks(3) [unfolded runs] eks(3) [unfolded runs]]
  obtain r where r: "computeAverageMetrics runs = Inr r"
    "hostnames (requests r) = Some hs" "etldPlus1s (requests r) = Some es"
    unfolding runs hs_def es_def by blast
  have hv: "orZero (hostnameValue m k) = runValue (hostnames (requests m)) k" for m k
    by (simp add: hostnameValue_def runValue_def split: option.splits)
  have ev: "orZero (etldPlus1Value m k) = runValue (etldPlus1s (requests m)) k" for m k
    by (simp add: etldPlus1Value_def runValue_def split: option.splits)
  note h = averaged_table [where field = "\<lambda>m. hostnames (requests m)" and vsel = hostnameValue,
    OF hks(2) hv hs_def]
  note e = averaged_table [where field = "\<lambda>m. etldPlus1s (requests m)" and vsel = etldPlus1Value,
    OF eks(2) ev es_def]
  from r h e show ?thesis by blast
qed

text \<open>
  Three runs. In \<open>hostnames\<close>, a key with value \<open>3\<close> in one run has the average \<open>1\<close>, and a
  key that is \<open>0\<close> wherever it occurs is absent from the result. In \<open>etldPlus1s\<close>, a key
  with value \<open>1\<close> in two runs has the average \<open>0.67\<close>, in one run \<open>0.33\<close>, and a key with
  value \<open>0.01\<close> in one run, whose quotient is below \<open>0.005\<close>, is absent.
\<close>

theorem computeAverageMetrics_key_averages_witness:
  "\<exists>r hs es. computeAverageMetrics
       [withMaps [(''tracker.com'', 3), (''absent.com'', 0)] [(''google.com'', 1), (''example.org'', 1)],
        withMaps [(''absent.com'', 0)] [(''google.com'', 1), (''example.org'', 1), (''rare.net'', 1 / 100)],
        withMaps [] [(''new-site.com'', 1), (''google.com'', 1)]] = Inr r \<and>
     hostnames (requests r) = Some hs \<and> etldPlus1s (requests r) = Some es \<and>
     map_of hs ''tracker.com'' = Some 1 \<and> map_of hs ''absent.com'' = None \<and>
     map_of es ''google.com'' = Some 1 \<and> map_of es ''example.org'' = Some (67 / 100) \<and>
     map_of es ''new-site.com'' = Some (33 / 100) \<and> map_of es ''rare.net'' = None"
proof -
  let ?runs = "[withMaps [(''tracker.com'', 3), (''absent.com'', 0)] [(''google.com'', 1), (''example.org'', 1)],
        withMaps [(''absent.com'', 0)] [(''google.com'', 1), (''example.org'', 1), (''rare.net'', 1 / 100)],
        withMaps [] [(''new-site.com'', 1), (''google.com'', 1)]]"
  have ne: "?runs \<noteq> []" by simp
  have maps: "\<forall>m \<in> set ?runs. hasMaps m" by (simp add: hasMaps_def withMaps_def)
  have hk: "(\<Union>m \<in> set ?runs. keysOf (hostnames (requests m))) = {''tracker.com'', ''absent.com''}"
    by (auto simp: keysOf_def withMaps_def)
  have ek: "(\<Union>m \<in> set ?runs. keysOf (etldPlus1s (requests m)))
      = {''google.com'', ''example.org'', ''rare.net'', ''new-site.com''}"
    by (auto simp: keysOf_def withMaps_def)
  have hm: "keyMean (\<lambda>m. hostnames (requests m)) ?runs ''tracker.com'' = 1"
    "keyMean (\<lambda>m. hostnames (requests m)) ?runs ''absent.com'' = 0"
    by (simp_all add: keyMean_def runValue_def withMaps_def)
  have em: "keyMean (\<lambda>m. etldPlus1s (requests m)) ?runs ''google.com'' = 1"
    "keyMean (\<lambda>m. etldPlus1s (requests m)) ?runs ''example.org'' = 2 / 3"
    "keyMean (\<lambda>m. etldPlus1s (requests m)) ?runs ''new-site.com'' = 1 / 3"
    "keyMean (\<lambda>m. etldPlus1s (requests m)) ?runs ''rare.net'' = 1 / 300"
    by (simp_all add: keyMean_def runValue_def withMaps_def)
  have t: "toFixed 2 1 = 1" "toFixed 2 0 = 0" "toFixed 2 (2 / 3) = 67 / 100" "toFixed 2 (1 / 3) = 33 / 100"
    "toFixed 2 (1 / 300) = 0"
    by (simp_all add: toFixed_eval)
  from computeAverageMetrics_key_averages [OF ne maps] obtain r hs es where
    r: "computeAverageMetrics ?runs = Inr r" "hostnames (requests r) = Some hs"
      "etldPlus1s (requests r) = Some es"
    and hs: "\<forall>k. map_of hs k =
       (if k \<in> (\<Union>m \<in> set ?runs. keysOf (hostnames (requests m))) \<and>
           0 < toFixed 2 (keyMean (\<lambda>m. hostnames (requests m)) ?runs k)
        then Some (toFixed 2 (keyMean (\<lambda>m. hostnames (requests m)) ?runs k)) else None)"
    and es: "\<forall>k. map_of es k =
       (if k \<in> (\<Union>m \<in> set ?runs. keysOf (etldPlus1s (requests m))) \<and>
           0 < toFixed 2 (keyMean (\<lambda>m. etldPlus1s (requests m)) ?runs k)
        then Some (toFixed 2 (keyMean (\<lambda>m. etldPlus1s (requests m)) ?runs k)) else None)"
    by blast
  have "map_of hs ''tracker.com'' = Some 1" "map_of hs ''absent.com'' = None"
    using hs unfolding hk by (simp_all add: hm t)
  moreover have "map_of es ''google.com'' = Some 1" "map_of es ''example.org'' = Some (67 / 100)"
    "map_of es ''new-site.com'' = Some (33 / 100)" "map_of es ''rare.net'' = None"
    using es unfolding ek by (simp_all add: em t)
  ultimately show ?thesis using r by blast
qed

lemma toFixed_add_close: "\<bar>toFixed 2 a + toFixed 2 b - toFixed 2 (a + b)\<bar> \<le> 1 / 100"
proof -
  obtain ka kb kc :: int where
    k: "toFixed 2 a = of_int ka / 100" "toFixed 2 b = of_int kb / 100" "toFixed 2 (a + b) = of_int kc / 100"
    using toFixed_grid [of 2 a] toFixed_grid [of 2 b] toFixed_grid [of 2 "a + b"] by auto
  define K where "K = ka + kb - kc"
  have D: "toFixed 2 a + toFixed 2 b - toFixed 2 (a + b) = of_int K / 100"
    by (simp add: k K_def diff_divide_distrib add_divide_distrib)
  have "\<bar>toFixed 2 a - a\<bar> \<le> 1 / 200" "\<bar>toFixed 2 b - b\<bar> \<le> 1 / 200"
       "\<bar>toFixed 2 (a + b) - (a + b)\<bar> \<le> 1 / 200"
    using toFixed_error [of 2 a] toFixed_error [of 2 b] toFixed_error [of 2 "a + b"] by simp_all
  then have "\<bar>toFixed 2 a + toFixed 2 b - toFixed 2 (a + b)\<bar> \<le> 3 / 200" by linarith
  then have "\<bar>of_int K :: rat\<bar> \<le> 3 / 2" unfolding D by simp
  then have "(of_int \<bar>K\<bar> :: rat) < of_int 2" by simp
  then have "\<bar>K\<bar> < 2" by (simp only: of_int_less_iff)
  then have "\<bar>K\<bar> \<le> 1" by simp
  then have "(of_int \<bar>K\<bar> :: rat) \<le> of_int 1" by (simp only: of_int_le_iff)
  then have "\<bar>of_int K :: rat\<bar> \<le> 1" by simp
  then show ?thesis unfolding D by simp
qed

lemma sum_list_add_map: "sum_list (map (\<lambda>m. f m + g m) ms) = sum_list (map f ms) + (sum_list (map g ms) :: rat)"
  by (induction ms) simp_all

lemma sum_list_le_map: "\<forall>m \<in> set ms. f m \<le> g m \<Longrightarrow> sum_list (map f ms) \<le> (sum_list (map g ms) :: rat)"
  by (induction ms) (simp_all add: add_mono)

lemma average_sum:
  assumes "ms \<noteq> []" and "\<forall>m \<in> set ms. f m + g m = h m"
  shows "\<bar>calculateAverage ms (\<lambda>m. Some (f m)) + calculateAverage ms (\<lambda>m. Some (g m))
          - calculateAverage ms (\<lambda>m. Some (h m))\<bar> \<le> 1 / 100"
proof -
  have "map h ms = map (\<lambda>m. f m + g m) ms" using assms(2) by simp
  then have "sum_list (map h ms) = sum_list (map f ms) + sum_list (map g ms)"
    by (simp only: sum_list_add_map)
  then have "sum_list (map h ms) / of_nat (length ms)
      = sum_list (map f ms) / of_nat (length ms) + sum_list (map g ms) / of_nat (length ms)"
    by (simp add: add_divide_distrib)
  then show ?thesis
    using toFixed_add_close [of "sum_list (map f ms) / of_nat (length ms)" "sum_list (map g ms) / of_nat (length ms)"]
    by (simp add: calculateAverage_all_defined [OF assms(1)])
qed

lemma average_le:
  assumes "ms \<noteq> []" and "\<forall>m \<in> set ms. f m \<le> g m"
  shows "calculateAverage ms (\<lambda>m. Some (f m)) \<le> calculateAverage ms (\<lambda>m. Some (g m))"
proof -
  have "sum_list (map f ms) / of_nat (length ms) \<le> sum_list (map g ms) / of_nat (length ms)"
    using sum_list_le_map [OF assms(2)] by (simp add: divide_right_mono)
  then show ?thesis
    by (simp add: calculateAverage_all_defined [OF assms(1)] toFixed_mono)
qed

text \<open>
  C8, as amended. For a non-empty sequence of runs that each satisfy the three relations,
  the record returned by \<open>computeAverageMetrics\<close> satisfies
  \<open>thirdPartyRequests \<le> totalRequests\<close>, and it satisfies the two sum relations up to the
  rounding of the three averages involved: each sum differs from its total by at most
  \<open>0.01\<close>.
\<close>

theorem computeAverageMetrics_invariant_up_to_rounding:
  assumes "runs \<noteq> []" and "\<forall>m \<in> set runs. hasMaps m" and "\<forall>m \<in> set runs. requestsInvariant m"
  shows "\<exists>r. computeAverageMetrics runs = Inr r \<and>
    thirdPartyRequests (requests r) \<le> Requests.totalRequests (requests r) \<and>
    \<bar>blockedRequests (requests r) + notBlockedRequests (requests r) - Requests.totalRequests (requests r)\<bar> \<le> 1 / 100 \<and>
    \<bar>thirdPartyBlockedRequests (requests r) + thirdPartyNotBlockedRequests (requests r)
       - thirdPartyRequests (requests r)\<bar> \<le> 1 / 100"
proof -
  from assms(1) obtain m0 rest where runs: "runs = m0 # rest" by (cases runs) auto
  from computeHostnameAverages_ok [OF assms(2)] obtain ha where ha: "computeHostnameAverages runs = Inr ha"
    by blast
  from computeEtldPlusOneAverages_ok [OF assms(2)] obtain ea where ea: "computeEtldPlusOneAverages runs = Inr ea"
    by blast
  from computeAverageMetrics_Inr [OF ha [unfolded runs] ea [unfolded runs]]
  obtain r where r: "computeAverageMetrics runs = Inr r"
    "Requests.totalRequests (requests r) = calculateAverage runs (\<lambda>m. Some (Requests.totalRequests (requests m)))"
    "blockedRequests (requests r) = calculateAverage runs (\<lambda>m. Some (blockedRequests (requests m)))"
    "notBlockedRequests (requests r) = calculateAverage runs (\<lambda>m. Some (notBlockedRequests (requests m)))"
    "thirdPartyRequests (requests r) = calculateAverage runs (\<lambda>m. Some (thirdPartyRequests (requests m)))"
    "thirdPartyBlockedRequests (requests r) =
       calculateAverage runs (\<lambda>m. Some (thirdPartyBlockedRequests (requests m)))"
    "thirdPartyNotBlockedRequests (requests r) =
       calculateAverage runs (\<lambda>m. Some (thirdPartyNotBlockedRequests (requests m)))"
    unfolding runs by blast
  have le: "thirdPartyRequests (requests r) \<le> Requests.totalRequests (requests r)"
    unfolding r using assms(3) by (intro average_le [OF assms(1)]) (simp add: requestsInvariant_def)
  have s1: "\<bar>blockedRequests (requests r) + notBlockedRequests (requests r) - Requests.totalRequests (requests r)\<bar> \<le> 1 / 100"
    unfolding r using assms(3) by (intro average_sum [OF assms(1)]) (simp add: requestsInvariant_def)
  have s2: "\<bar>thirdPartyBlockedRequests (requests r) + thirdPartyNotBlockedRequests (requests r)
       - thirdPartyRequests (requests r)\<bar> \<le> 1 / 100"
    unfolding r using assms(3) by (intro average_sum [OF assms(1)]) (simp add: requestsInvariant_def)
  from r(1) le s1 s2 show ?thesis by blast
qed

text \<open>The theorem at three runs that satisfy the relations.\<close>

theorem computeAverageMetrics_invariant_up_to_rounding_witness:
  "\<exists>r. computeAverageMetrics [withCounts 2 1 1 0 0 0, withCounts 0 0 0 0 0 0, withCounts 0 0 0 0 0 0] = Inr r \<and>
    thirdPartyRequests (requests r) \<le> Requests.totalRequests (requests r) \<and>
    \<bar>blockedRequests (requests r) + notBlockedRequests (requests r) - Requests.totalRequests (requests r)\<bar> \<le> 1 / 100"
proof -
  let ?runs = "[withCounts 2 1 1 0 0 0, withCounts 0 0 0 0 0 0, withCounts 0 0 0 0 0 0]"
  have ne: "?runs \<noteq> []" by simp
  have maps: "\<forall>m \<in> set ?runs. hasMaps m" by (simp add: hasMaps_def withCounts_def baseMetric_def)
  have inv: "\<forall>m \<in> set ?runs. requestsInvariant m" by (simp add: requestsInvariant_def withCounts_def)
  from computeAverageMetrics_invariant_up_to_rounding [OF ne maps inv] show ?thesis by blast
qed

text \<open>
  The relation does not hold exactly: with \<open>blocked = notBlocked = 1\<close> and \<open>total = 2\<close> in
  one run of three, the averages are \<open>0.33\<close>, \<open>0.33\<close> and \<open>0.67\<close>.
\<close>

theorem computeAverageMetrics_invariant_counterexample:
  "requestsInvariant (withCounts 2 1 1 0 0 0) \<and> requestsInvariant (withCounts 0 0 0 0 0 0) \<and>
   (\<exists>r. computeAverageMetrics [withCounts 2 1 1 0 0 0, withCounts 0 0 0 0 0 0, withCounts 0 0 0 0 0 0] = Inr r \<and>
      blockedRequests (requests r) = 33 / 100 \<and> notBlockedRequests (requests r) = 33 / 100 \<and>
      Requests.totalRequests (requests r) = 67 / 100 \<and>
      blockedRequests (requests r) + notBlockedRequests (requests r) \<noteq> Requests.totalRequests (requests r))"
proof -
  let ?runs = "[withCounts 2 1 1 0 0 0, withCounts 0 0 0 0 0 0, withCounts 0 0 0 0 0 0]"
  have maps: "\<forall>m \<in> set ?runs. hasMaps m" by (simp add: hasMaps_def withCounts_def baseMetric_def)
  from computeHostnameAverages_ok [OF maps] obtain ha where ha: "computeHostnameAverages ?runs = Inr ha"
    by blast
  from computeEtldPlusOneAverages_ok [OF maps] obtain ea where ea: "computeEtldPlusOneAverages ?runs = Inr ea"
    by blast
  from computeAverageMetrics_Inr [OF ha ea]
  obtain r where r: "computeAverageMetrics ?runs = Inr r"
    "Requests.totalRequests (requests r) = calculateAverage ?runs (\<lambda>m. Some (Requests.totalRequests (requests m)))"
    "blockedRequests (requests r) = calculateAverage ?runs (\<lambda>m. Some (blockedRequests (requests m)))"
    "notBlockedRequests (requests r) = calculateAverage ?runs (\<lambda>m. Some (notBlockedRequests (requests m)))"
    by blast
  have t: "Requests.totalRequests (requests r) = 67 / 100"
    unfolding r by (simp add: calculateAverage_all_defined withCounts_def toFixed_eval)
  have b: "blockedRequests (requests r) = 33 / 100"
    unfolding r by (simp add: calculateAverage_all_defined withCounts_def toFixed_eval)
  have nb: "notBlockedRequests (requests r) = 33 / 100"
    unfolding r by (simp add: calculateAverage_all_defined withCounts_def toFixed_eval)
  have inv: "requestsInvariant (withCounts 2 1 1 0 0 0) \<and> requestsInvariant (withCounts 0 0 0 0 0 0)"
    by (simp add: requestsInvariant_def withCounts_def)
  from r(1) t b nb inv show ?thesis by simp
qed

lemma collectUniqueKeys_from_Inr:
  "collectUniqueKeys_from keys ms sel = Inr ks \<Longrightarrow> \<forall>m \<in> set ms. sel m \<noteq> None"
  by (induction ms arbitrary: keys) (auto split: option.splits)

lemma computeAverageMetrics_Inr_hasMaps:
  assumes "computeAverageMetrics runs = Inr r"
  shows "runs \<noteq> [] \<and> (\<forall>m \<in> set runs. hasMaps m)"
proof (cases runs)
  case Nil
  with assms show ?thesis by simp
next
  case (Cons m0 rest)
  from assms obtain hks eks where
    "collectUniqueKeys runs (\<lambda>m. hostnames (requests m)) = Inr hks"
    "collectUniqueKeys runs (\<lambda>m. etldPlus1s (requests m)) = Inr eks"
    unfolding Cons
    by (auto simp: Let_def computeHostnameAverages_def computeEtldPlusOneAverages_def split: sum.splits)
  then have "\<forall>m \<in> set runs. hostnames (requests m) \<noteq> None" "\<forall>m \<in> set runs. etldPlus1s (requests m) \<noteq> None"
    unfolding collectUniqueKeys_def by (auto dest: collectUniqueKeys_from_Inr)
  with Cons show ?thesis by (simp add: hasMaps_def)
qed

lemma table_roundtrip:
  "\<forall>(k, v) \<in> set al. g k = v \<and> P k \<Longrightarrow> map (\<lambda>k. (k, g k)) (filter P (map fst al)) = al"
  by (induction al) auto

lemma averagedMap_table:
  "distinct ks \<Longrightarrow> averagedMap (map (\<lambda>k. (k, toFixed 2 (f k))) (filter (\<lambda>k. toFixed 2 (f k) > 0) ks))"
  by (auto simp: averagedMap_def comp_def distinct_map_filter toFixed_idem)

lemma keyAverage_single:
  "keyAverage [m] vsel k = toFixed 2 (orZero (vsel m k))"
  by (simp add: keyAverage_def)

lemma hostnames_roundtrip:
  assumes "hostnames (requests m) = Some al" and "averagedMap al"
  shows "computeHostnameAverages [m] = Inr al"
proof -
  have d: "distinct (map fst al)" using assms(2) by (simp add: averagedMap_def)
  have "\<forall>(k, v) \<in> set al. keyAverage [m] hostnameValue k = v \<and> keyAverage [m] hostnameValue k > 0"
    using assms d by (auto simp: keyAverage_single hostnameValue_def averagedMap_def)
  from table_roundtrip [of al "keyAverage [m] hostnameValue" "\<lambda>k. keyAverage [m] hostnameValue k > 0", OF this]
  show ?thesis
    using collectUniqueKeys_single [of "\<lambda>m. hostnames (requests m)" m al] assms(1) d
    by (simp add: computeHostnameAverages_def computeAveragesForKeys_eq [OF d])
qed

lemma etldPlus1s_roundtrip:
  assumes "etldPlus1s (requests m) = Some al" and "averagedMap al"
  shows "computeEtldPlusOneAverages [m] = Inr al"
proof -
  have d: "distinct (map fst al)" using assms(2) by (simp add: averagedMap_def)
  have "\<forall>(k, v) \<in> set al. keyAverage [m] etldPlus1Value k = v \<and> keyAverage [m] etldPlus1Value k > 0"
    using assms d by (auto simp: keyAverage_single etldPlus1Value_def averagedMap_def)
  from table_roundtrip [of al "keyAverage [m] etldPlus1Value" "\<lambda>k. keyAverage [m] etldPlus1Value k > 0", OF this]
  show ?thesis
    using collectUniqueKeys_single [of "\<lambda>m. etldPlus1s (requests m)" m al] assms(1) d
    by (simp add: computeEtldPlusOneAverages_def computeAveragesForKeys_eq [OF d])
qed

text \<open>
  C9. For every record \<open>m\<close> that \<open>computeAverageMetrics\<close> returns,
  \<open>computeAverageMetrics [m]\<close> returns \<open>m\<close> again.
\<close>

theorem computeAverageMetrics_idempotent:
  assumes "computeAverageMetrics runs = Inr m"
  shows "computeAverageMetrics [m] = Inr m"
proof -
  from computeAverageMetrics_Inr_hasMaps [OF assms] have ne: "runs \<noteq> []" and maps: "\<forall>m \<in> set runs. hasMaps m"
    by simp_all
  from ne obtain m0 rest where runs: "runs = m0 # rest" by (cases runs) auto
  from computeHostnameAverages_ok [OF maps] obtain hks where
    hks: "distinct hks"
      "computeHostnameAverages runs =
         Inr (map (\<lambda>k. (k, keyAverage runs hostnameValue k)) (filter (\<lambda>k. keyAverage runs hostnameValue k > 0) hks))"
    by blast
  from computeEtldPlusOneAverages_ok [OF maps] obtain eks where
    eks: "distinct eks"
      "computeEtldPlusOneAverages runs =
         Inr (map (\<lambda>k. (k, keyAverage runs etldPlus1Value k)) (filter (\<lambda>k. keyAverage runs etldPlus1Value k > 0) eks))"
    by blast
  let ?ha = "map (\<lambda>k. (k, keyAverage runs hostnameValue k)) (filter (\<lambda>k. keyAverage runs hostnameValue k > 0) hks)"
  let ?ea = "map (\<lambda>k. (k, keyAverage runs etldPlus1Value k)) (filter (\<lambda>k. keyAverage runs etldPlus1Value k > 0) eks)"
  have aha: "averagedMap ?ha" unfolding keyAverage_def by (rule averagedMap_table [OF hks(1)])
  have aea: "averagedMap ?ea" unfolding keyAverage_def by (rule averagedMap_table [OF eks(1)])
  from computeAverageMetrics_Inr [OF hks(2) [unfolded runs] eks(2) [unfolded runs]] assms
  have m: "domContentLoadTimeMs m = Some (calculateAverage runs domContentLoadTimeMs)"
    "loadTimeMs m = Some (calculateAverage runs loadTimeMs)"
    "Weight.totalBytes (weight m) = calculateAverage runs (\<lambda>m. Some (Weight.totalBytes (weight m)))"
    "thirdPartyBytes (weight m) = Some (calculateAverage runs (\<lambda>m. thirdPartyBytes (weight m)))"
    "Requests.totalRequests (requests m) = calculateAverage runs (\<lambda>m. Some (Requests.totalRequests (requests m)))"
    "blockedRequests (requests m) = calculateAverage runs (\<lambda>m. Some (blockedRequests (requests m)))"
    "notBlockedRequests (requests m) = calculateAverage runs (\<lambda>m. Some (notBlockedRequests (requests m)))"
    "thirdPartyRequests (requests m) = calculateAverage runs (\<lambda>m. Some (thirdPartyRequests (requests m)))"
    "thirdPartyBlockedRequests (requests m) =
       calculateAverage runs (\<lambda>m. Some (thirdPartyBlockedRequests (requests m)))"
    "thirdPartyNotBlockedRequests (requests m) =
       calculateAverage runs (\<lambda>m. Some (thirdPartyNotBlockedRequests (requests m)))"
    "hostnames (requests m) = Some ?ha" "etldPlus1s (requests m) = Some ?ea"
    unfolding runs by auto
  have h: "computeHostnameAverages [m] = Inr ?ha" by (rule hostnames_roundtrip [OF m(11) aha])
  have e: "computeEtldPlusOneAverages [m] = Inr ?ea" by (rule etldPlus1s_roundtrip [OF m(12) aea])
  have single: "calculateAverage [m] sel = v" if "sel m = Some v" "toFixed 2 v = v" for sel v
    using that by (rule calculateAverage_single)
  have f1: "calculateAverage [m] domContentLoadTimeMs = calculateAverage runs domContentLoadTimeMs"
    by (rule single) (simp_all add: m calculateAverage_fixed)
  have f2: "calculateAverage [m] loadTimeMs = calculateAverage runs loadTimeMs"
    by (rule single) (simp_all add: m calculateAverage_fixed)
  have f3: "calculateAverage [m] (\<lambda>m. Some (Weight.totalBytes (weight m))) = Weight.totalBytes (weight m)"
    by (rule single) (simp_all add: m calculateAverage_fixed)
  have f4: "calculateAverage [m] (\<lambda>m. thirdPartyBytes (weight m))
      = calculateAverage runs (\<lambda>m. thirdPartyBytes (weight m))"
    by (rule single) (simp_all add: m calculateAverage_fixed)
  have f5: "calculateAverage [m] (\<lambda>m. Some (Requests.totalRequests (requests m))) = Requests.totalRequests (requests m)"
    by (rule single) (simp_all add: m calculateAverage_fixed)
  have f6: "calculateAverage [m] (\<lambda>m. Some (blockedRequests (requests m))) = blockedRequests (requests m)"
    by (rule single) (simp_all add: m calculateAverage_fixed)
  have f7: "calculateAverage [m] (\<lambda>m. Some (notBlockedRequests (requests m))) = notBlockedRequests (requests m)"
    by (rule single) (simp_all add: m calculateAverage_fixed)
  have f8: "calculateAverage [m] (\<lambda>m. Some (thirdPartyRequests (requests m))) = thirdPartyRequests (requests m)"
    by (rule single) (simp_all add: m calculateAverage_fixed)
  have f9: "calculateAverage [m] (\<lambda>m. Some (thirdPartyBlockedRequests (requests m)))
      = thirdPartyBlockedRequests (requests m)"
    by (rule single) (simp_all add: m calculateAverage_fixed)
  have f10: "calculateAverage [m] (\<lambda>m. Some (thirdPartyNotBlockedRequests (requests m)))
      = thirdPartyNotBlockedRequests (requests m)"
    by (rule single) (simp_all add: m calculateAverage_fixed)
  have w: "\<lparr>Weight.totalBytes = Weight.totalBytes (weight m),
            thirdPartyBytes = Some (calculateAverage runs (\<lambda>m. thirdPartyBytes (weight m)))\<rparr> = weight m"
    using m(4) by (cases "weight m") simp
  show ?thesis
    by (simp add: Let_def h e f1 f2 f3 f4 f5 f6 f7 f8 f9 f10 w m(1,2,11,12) [symmetric])
qed

text \<open>
  The three runs of the repository's test of hostname averages: their average, and the
  average of that record alone.
\<close>

theorem computeAverageMetrics_idempotent_witness:
  "computeAverageMetrics
     [withMaps [(''google.com'', 1), (''example.org'', 1)] [(''google.com'', 1), (''example.org'', 1)],
      withMaps [(''google.com'', 1), (''example.org'', 1)] [(''google.com'', 1), (''example.org'', 1)],
      withMaps [(''new-site.com'', 1), (''google.com'', 1)] [(''new-site.com'', 1), (''google.com'', 1)]]
   = Inr (withMaps [(''google.com'', 1), (''example.org'', 67 / 100), (''new-site.com'', 33 / 100)]
                   [(''google.com'', 1), (''example.org'', 67 / 100), (''new-site.com'', 33 / 100)]) \<and>
   computeAverageMetrics
     [withMaps [(''google.com'', 1), (''example.org'', 67 / 100), (''new-site.com'', 33 / 100)]
               [(''google.com'', 1), (''example.org'', 67 / 100), (''new-site.com'', 33 / 100)]]
   = Inr (withMaps [(''google.com'', 1), (''example.org'', 67 / 100), (''new-site.com'', 33 / 100)]
                   [(''google.com'', 1), (''example.org'', 67 / 100), (''new-site.com'', 33 / 100)])"
proof -
  have runs: "computeAverageMetrics
     [withMaps [(''google.com'', 1), (''example.org'', 1)] [(''google.com'', 1), (''example.org'', 1)],
      withMaps [(''google.com'', 1), (''example.org'', 1)] [(''google.com'', 1), (''example.org'', 1)],
      withMaps [(''new-site.com'', 1), (''google.com'', 1)] [(''new-site.com'', 1), (''google.com'', 1)]]
   = Inr (withMaps [(''google.com'', 1), (''example.org'', 67 / 100), (''new-site.com'', 33 / 100)]
                   [(''google.com'', 1), (''example.org'', 67 / 100), (''new-site.com'', 33 / 100)])"
    by code_simp
  from computeAverageMetrics_idempotent [OF runs] runs show ?thesis by (rule conjI [rotated])
qed

text \<open>
  C2. \<open>computeAverageMetrics\<close> applied to an empty array throws: the result is the error,
  never a record.
\<close>

theorem computeAverageMetrics_empty_throws:
  "computeAverageMetrics [] = Inl EmptyMetricsArray \<and> (\<forall>r. computeAverageMetrics [] \<noteq> Inr r)"
  by simp

section \<open>Properties of the report generator\<close>

lemma findCommonDomains_foldl_Some:
  "\<exists>common. foldl (\<lambda>acc data.
               let domains = newSet (validDomains data) in
               case acc of
                 None \<Rightarrow> Some domains
               | Some common \<Rightarrow> Some (filter (\<lambda>domain_name. domain_name \<in> set domains) common))
              (Some c) allData = Some common"
  by (induction allData arbitrary: c) (simp_all add: Let_def)

lemma findCommonDomains_exit_iff: "(findCommonDomains allData = Inl ProcessExit) = (allData = [])"
proof (cases allData)
  case Nil
  then show ?thesis by (simp add: findCommonDomains_def)
next
  case (Cons d ds)
  from findCommonDomains_foldl_Some [of "newSet (validDomains d)" ds]
  show ?thesis unfolding Cons by (auto simp: findCommonDomains_def Let_def)
qed

lemma foldl_field_sum:
  assumes "\<And>st e. F (fst (step st e)) = F (fst st) + c e"
  shows "F (fst (foldl step st es)) = (F (fst st) :: rat) + sum_list (map c es)"
  using assms by (induction es arbitrary: st) (simp_all add: add.assoc)

lemma entriesOf_keys: "distinct (map fst data) \<Longrightarrow> map (entriesOf data) (map fst data) = map snd data"
proof (induction data)
  case Nil
  then show ?case by simp
next
  case (Cons p data)
  obtain k v where p: "p = (k, v)" by (cases p)
  from Cons.prems have k: "k \<notin> fst ` set data" and d: "distinct (map fst data)" by (auto simp: p)
  have "map (entriesOf ((k, v) # data)) (map fst data) = map (entriesOf data) (map fst data)"
    using k by (intro map_cong) (auto simp: entriesOf_def)
  with Cons.IH [OF d] show ?case by (simp add: p entriesOf_def)
qed

lemma processAllDomains_field_domains:
  assumes "\<And>d st e. F (fst (processEntry gd ti ci d st e)) = F (fst st) + c e"
  shows "F (fst (foldl (\<lambda>state domain_name.
        case map_of data domain_name of
          Some entries \<Rightarrow> foldl (processEntry gd ti ci domain_name) state entries
        | None \<Rightarrow> state) st ds))
    = (F (fst st) :: rat) + sum_list (map c (concat (map (entriesOf data) ds)))"
proof (induction ds arbitrary: st)
  case Nil
  then show ?case by simp
next
  case (Cons d ds)
  show ?case
  proof (cases "map_of data d")
    case None
    then show ?thesis using Cons.IH [of st] by (simp add: entriesOf_def)
  next
    case (Some es)
    have "F (fst (foldl (processEntry gd ti ci d) st es)) = F (fst st) + sum_list (map c es)"
      by (rule foldl_field_sum) (rule assms)
    then show ?thesis using Cons.IH [of "foldl (processEntry gd ti ci d) st es"] Some
      by (simp add: entriesOf_def add.assoc)
  qed
qed

lemma processAllDomains_field:
  assumes "\<And>d st e. F (fst (processEntry gd ti ci d st e)) = F (fst st) + c e"
      and "distinct (map fst data)"
  shows "F (fst (processAllDomains gd (Object_keys data) data ti ci a col))
    = (F a :: rat) + sum_list (map c (allEntries data))"
proof -
  have "F (fst (processAllDomains gd (Object_keys data) data ti ci a col))
      = F a + sum_list (map c (concat (map (entriesOf data) (map fst data))))"
    unfolding processAllDomains_def Object_keys_def
    using processAllDomains_field_domains [of F gd ti ci c data "(a, col)" "map fst data", OF assms(1)]
    by (simp del: map_map)
  then show ?thesis
    by (simp only: entriesOf_keys [OF assms(2)] allEntries_def)
qed

lemma processEntry_fields:
  "totalDomContentLoadTime (fst (processEntry gd ti ci d st e))
     = totalDomContentLoadTime (fst st) + orZero (domContentLoadTimeMs e)"
  "AggregatedData.totalLoadTime (fst (processEntry gd ti ci d st e))
     = AggregatedData.totalLoadTime (fst st) + orZero (loadTimeMs e)"
  "AggregatedData.totalBytes (fst (processEntry gd ti ci d st e))
     = AggregatedData.totalBytes (fst st) + Weight.totalBytes (weight e)"
  "AggregatedData.totalRequests (fst (processEntry gd ti ci d st e))
     = AggregatedData.totalRequests (fst st) + Requests.totalRequests (requests e)"
  "AggregatedData.totalThirdPartyRequests (fst (processEntry gd ti ci d st e))
     = AggregatedData.totalThirdPartyRequests (fst st) + thirdPartyRequests (requests e)"
  "AggregatedData.totalBlockedRequests (fst (processEntry gd ti ci d st e))
     = AggregatedData.totalBlockedRequests (fst st) + blockedRequests (requests e)"
  "AggregatedData.totalHostnames (fst (processEntry gd ti ci d st e))
     = AggregatedData.totalHostnames (fst st)
       + of_nat (case hostnames (requests e) of None \<Rightarrow> 0 | Some al \<Rightarrow> length al)"
  "AggregatedData.totalEtldPlus1s (fst (processEntry gd ti ci d st e))
     = AggregatedData.totalEtldPlus1s (fst st)
       + of_nat (case etldPlus1s (requests e) of None \<Rightarrow> 0 | Some al \<Rightarrow> length al)"
  by (simp_all add: processEntry_def processHostnameData_def processEtldPlus1Data_def
      aggregateBasicMetrics_def Object_keys_def Let_def split: option.splits prod.splits)

lemma computeStatistics_aggregated:
  "siteCount (computeStatistics gd data ti ci) = length data"
  "ReportResult.totalLoadTime (computeStatistics gd data ti ci)
     = AggregatedData.totalLoadTime (fst (processAllDomains gd (Object_keys data) data ti ci
         initializeAggregatedData initializeCollectedData))"
  "ReportResult.totalBytes (computeStatistics gd data ti ci)
     = AggregatedData.totalBytes (fst (processAllDomains gd (Object_keys data) data ti ci
         initializeAggregatedData initializeCollectedData))"
  "ReportResult.totalRequests (computeStatistics gd data ti ci)
     = toFixed 0 (AggregatedData.totalRequests (fst (processAllDomains gd (Object_keys data) data ti ci
         initializeAggregatedData initializeCollectedData)))"
  "ReportResult.totalThirdPartyRequests (computeStatistics gd data ti ci)
     = toFixed 0 (AggregatedData.totalThirdPartyRequests (fst (processAllDomains gd (Object_keys data) data ti ci
         initializeAggregatedData initializeCollectedData)))"
  "ReportResult.totalBlockedRequests (computeStatistics gd data ti ci)
     = toFixed 0 (AggregatedData.totalBlockedRequests (fst (processAllDomains gd (Object_keys data) data ti ci
         initializeAggregatedData initializeCollectedData)))"
  "ReportResult.totalHostnames (computeStatistics gd data ti ci)
     = AggregatedData.totalHostnames (fst (processAllDomains gd (Object_keys data) data ti ci
         initializeAggregatedData initializeCollectedData))"
  "ReportResult.totalEtldPlus1s (computeStatistics gd data ti ci)
     = AggregatedData.totalEtldPlus1s (fst (processAllDomains gd (Object_keys data) data ti ci
         initializeAggregatedData initializeCollectedData))"
  "averageDomContentLoadTime (computeStatistics gd data ti ci)
     = jsdiv (totalDomContentLoadTime (fst (processAllDomains gd (Object_keys data) data ti ci
         initializeAggregatedData initializeCollectedData))) (length data)"
  "averageLoadTime (computeStatistics gd data ti ci)
     = jsdiv (AggregatedData.totalLoadTime (fst (processAllDomains gd (Object_keys data) data ti ci
         initializeAggregatedData initializeCollectedData))) (length data)"
  "averageBytes (computeStatistics gd data ti ci)
     = jsdiv (AggregatedData.totalBytes (fst (processAllDomains gd (Object_keys data) data ti ci
         initializeAggregatedData initializeCollectedData))) (length data)"
  "averageRequests (computeStatistics gd data ti ci)
     = jsdiv (AggregatedData.totalRequests (fst (processAllDomains gd (Object_keys data) data ti ci
         initializeAggregatedData initializeCollectedData))) (length data)"
  "averageThirdPartyRequests (computeStatistics gd data ti ci)
     = jsdiv (AggregatedData.totalThirdPartyRequests (fst (processAllDomains gd (Object_keys data) data ti ci
         initializeAggregatedData initializeCollectedData))) (length data)"
  "averageBlockedRequests (computeStatistics gd data ti ci)
     = jsdiv (AggregatedData.totalBlockedRequests (fst (processAllDomains gd (Object_keys data) data ti ci
         initializeAggregatedData initializeCollectedData))) (length data)"
  "averageHostnames (computeStatistics gd data ti ci)
     = jsdiv (AggregatedData.totalHostnames (fst (processAllDomains gd (Object_keys data) data ti ci
         initializeAggregatedData initializeCollectedData))) (length data)"
  "averageEtldPlus1s (computeStatistics gd data ti ci)
     = jsdiv (AggregatedData.totalEtldPlus1s (fst (processAllDomains gd (Object_keys data) data ti ci
         initializeAggregatedData initializeCollectedData))) (length data)"
  by (simp_all add: computeStatistics_def assembleResult_def calculateAverages_def
      convertSetsToCountMaps_def Object_keys_def Let_def split: prod.splits)

lemma computeStatistics_sums:
  assumes "distinct (map fst data)"
  shows
  "ReportResult.totalLoadTime (computeStatistics gd data ti ci)
     = sum_list (map (\<lambda>e. orZero (loadTimeMs e)) (allEntries data))"
  "ReportResult.totalBytes (computeStatistics gd data ti ci)
     = sum_list (map (\<lambda>e. Weight.totalBytes (weight e)) (allEntries data))"
  "ReportResult.totalRequests (computeStatistics gd data ti ci)
     = toFixed 0 (sum_list (map (\<lambda>e. Requests.totalRequests (requests e)) (allEntries data)))"
  "ReportResult.totalThirdPartyRequests (computeStatistics gd data ti ci)
     = toFixed 0 (sum_list (map (\<lambda>e. thirdPartyRequests (requests e)) (allEntries data)))"
  "ReportResult.totalBlockedRequests (computeStatistics gd data ti ci)
     = toFixed 0 (sum_list (map (\<lambda>e. blockedRequests (requests e)) (allEntries data)))"
  "averageDomContentLoadTime (computeStatistics gd data ti ci)
     = jsdiv (sum_list (map (\<lambda>e. orZero (domContentLoadTimeMs e)) (allEntries data))) (length data)"
  "averageLoadTime (computeStatistics gd data ti ci)
     = jsdiv (sum_list (map (\<lambda>e. orZero (loadTimeMs e)) (allEntries data))) (length data)"
  "averageBytes (computeStatistics gd data ti ci)
     = jsdiv (sum_list (map (\<lambda>e. Weight.totalBytes (weight e)) (allEntries data))) (length data)"
  "averageRequests (computeStatistics gd data ti ci)
     = jsdiv (sum_list (map (\<lambda>e. Requests.totalRequests (requests e)) (allEntries data))) (length data)"
  "averageThirdPartyRequests (computeStatistics gd data ti ci)
     = jsdiv (sum_list (map (\<lambda>e. thirdPartyRequests (requests e)) (allEntries data))) (length data)"
  "averageBlockedRequests (computeStatistics gd data ti ci)
     = jsdiv (sum_list (map (\<lambda>e. blockedRequests (requests e)) (allEntries data))) (length data)"
  "ReportResult.totalHostnames (computeStatistics gd data ti ci)
     = sum_list (map (\<lambda>e. of_nat (case hostnames (requests e) of None \<Rightarrow> 0 | Some al \<Rightarrow> length al))
         (allEntries data))"
  "ReportResult.totalEtldPlus1s (computeStatistics gd data ti ci)
     = sum_list (map (\<lambda>e. of_nat (case etldPlus1s (requests e) of None \<Rightarrow> 0 | Some al \<Rightarrow> length al))
         (allEntries data))"
  "averageHostnames (computeStatistics gd data ti ci)
     = jsdiv (sum_list (map (\<lambda>e. of_nat (case hostnames (requests e) of None \<Rightarrow> 0 | Some al \<Rightarrow> length al))
         (allEntries data))) (length data)"
  "averageEtldPlus1s (computeStatistics gd data ti ci)
     = jsdiv (sum_list (map (\<lambda>e. of_nat (case etldPlus1s (requests e) of None \<Rightarrow> 0 | Some al \<Rightarrow> length al))
         (allEntries data))) (length data)"
  unfolding computeStatistics_aggregated
  by (simp_all add: processAllDomains_field [OF processEntry_fields(1) assms]
      processAllDomains_field [OF processEntry_fields(2) assms]
      processAllDomains_field [OF processEntry_fields(3) assms]
      processAllDomains_field [OF processEntry_fields(4) assms]
      processAllDomains_field [OF processEntry_fields(5) assms]
      processAllDomains_field [OF processEntry_fields(6) assms]
      processAllDomains_field [OF processEntry_fields(7) assms]
      processAllDomains_field [OF processEntry_fields(8) assms]
      initializeAggregatedData_def)

text \<open>
  The number of keys that the code adds for an entry is the number of distinct keys of
  the dictionary, when the dictionary is one of a JavaScript object.
\<close>

lemma name_count_sums:
  assumes "wellFormedData data"
  shows "sum_list (map (\<lambda>e. (of_nat (case hostnames (requests e) of None \<Rightarrow> 0 | Some al \<Rightarrow> length al) :: rat))
            (allEntries data))
      = of_nat (sum_list (map (\<lambda>e. keyCount (hostnames (requests e))) (allEntries data)))"
    and "sum_list (map (\<lambda>e. (of_nat (case etldPlus1s (requests e) of None \<Rightarrow> 0 | Some al \<Rightarrow> length al) :: rat))
            (allEntries data))
      = of_nat (sum_list (map (\<lambda>e. keyCount (etldPlus1s (requests e))) (allEntries data)))"
proof -
  have len: "(case obj of None \<Rightarrow> 0 | Some al \<Rightarrow> length al) = keyCount obj" if "distinctKeys obj" for obj
  proof (cases obj)
    case None
    then show ?thesis by (simp add: keyCount_def keysOf_def)
  next
    case (Some al)
    with that have "distinct (map fst al)" by (simp add: distinctKeys_def)
    from distinct_card [OF this] Some show ?thesis by (simp add: keyCount_def keysOf_def)
  qed
  have h: "(case hostnames (requests e) of None \<Rightarrow> 0 | Some al \<Rightarrow> length al) = keyCount (hostnames (requests e))"
    if "e \<in> set (allEntries data)" for e
    using that assms by (intro len) (simp add: wellFormedData_def list_all_iff)
  have e: "(case etldPlus1s (requests e) of None \<Rightarrow> 0 | Some al \<Rightarrow> length al) = keyCount (etldPlus1s (requests e))"
    if "e \<in> set (allEntries data)" for e
    using that assms by (intro len) (simp add: wellFormedData_def list_all_iff)
  have hs: "map (\<lambda>e. (of_nat (case hostnames (requests e) of None \<Rightarrow> 0 | Some al \<Rightarrow> length al) :: rat)) (allEntries data)
      = map (\<lambda>e. of_nat (keyCount (hostnames (requests e)))) (allEntries data)"
    by (rule map_cong [OF refl]) (simp add: h)
  have es: "map (\<lambda>e. (of_nat (case etldPlus1s (requests e) of None \<Rightarrow> 0 | Some al \<Rightarrow> length al) :: rat)) (allEntries data)
      = map (\<lambda>e. of_nat (keyCount (etldPlus1s (requests e)))) (allEntries data)"
    by (rule map_cong [OF refl]) (simp add: e)
  have cast: "sum_list (map (\<lambda>e. (of_nat (f e) :: rat)) xs) = of_nat (sum_list (map f xs))" for f :: "Metrics \<Rightarrow> nat" and xs
    by (induction xs) simp_all
  show "sum_list (map (\<lambda>e. (of_nat (case hostnames (requests e) of None \<Rightarrow> 0 | Some al \<Rightarrow> length al) :: rat))
            (allEntries data))
      = of_nat (sum_list (map (\<lambda>e. keyCount (hostnames (requests e))) (allEntries data)))"
    unfolding hs cast by (rule refl)
  show "sum_list (map (\<lambda>e. (of_nat (case etldPlus1s (requests e) of None \<Rightarrow> 0 | Some al \<Rightarrow> length al) :: rat))
            (allEntries data))
      = of_nat (sum_list (map (\<lambda>e. keyCount (etldPlus1s (requests e))) (allEntries data)))"
    unfolding es cast by (rule refl)
qed

text \<open>
  C6, as amended. For every well-formed \<open>MetricsData\<close> (an object of objects),
  \<open>computeStatistics\<close> returns \<open>siteCount\<close> equal to the number of domains; \<open>totalLoadTime\<close>
  and \<open>totalBytes\<close> equal to the sum of the field over all entries (a missing optional
  field counting \<open>0\<close>); \<open>totalRequests\<close>, \<open>totalThirdPartyRequests\<close> and
  \<open>totalBlockedRequests\<close> equal to that sum rounded to the nearest integer (\<open>toFixed 0\<close>);
  \<open>totalHostnames\<close> and \<open>totalEtldPlus1s\<close> equal to the sum over all entries of the number
  of distinct keys of the dictionary (a missing dictionary counting \<open>0\<close>); and each of the
  eight averages equal to the corresponding unrounded sum divided by \<open>siteCount\<close>.
\<close>

theorem computeStatistics_totals_and_averages:
  assumes "wellFormedData data"
  shows "(let r = computeStatistics getDomain data trackersInfo companiesInfo; es = allEntries data in
    siteCount r = length data \<and>
    ReportResult.totalLoadTime r = sum_list (map (\<lambda>e. orZero (loadTimeMs e)) es) \<and>
    ReportResult.totalBytes r = sum_list (map (\<lambda>e. Weight.totalBytes (weight e)) es) \<and>
    ReportResult.totalRequests r = toFixed 0 (sum_list (map (\<lambda>e. Requests.totalRequests (requests e)) es)) \<and>
    ReportResult.totalThirdPartyRequests r = toFixed 0 (sum_list (map (\<lambda>e. thirdPartyRequests (requests e)) es)) \<and>
    ReportResult.totalBlockedRequests r = toFixed 0 (sum_list (map (\<lambda>e. blockedRequests (requests e)) es)) \<and>
    ReportResult.totalHostnames r = of_nat (sum_list (map (\<lambda>e. keyCount (hostnames (requests e))) es)) \<and>
    ReportResult.totalEtldPlus1s r = of_nat (sum_list (map (\<lambda>e. keyCount (etldPlus1s (requests e))) es)) \<and>
    averageDomContentLoadTime r = jsdiv (sum_list (map (\<lambda>e. orZero (domContentLoadTimeMs e)) es)) (siteCount r) \<and>
    averageLoadTime r = jsdiv (sum_list (map (\<lambda>e. orZero (loadTimeMs e)) es)) (siteCount r) \<and>
    averageBytes r = jsdiv (sum_list (map (\<lambda>e. Weight.totalBytes (weight e)) es)) (siteCount r) \<and>
    averageRequests r = jsdiv (sum_list (map (\<lambda>e. Requests.totalRequests (requests e)) es)) (siteCount r) \<and>
    averageThirdPartyRequests r = jsdiv (sum_list (map (\<lambda>e. thirdPartyRequests (requests e)) es)) (siteCount r) \<and>
    averageBlockedRequests r = jsdiv (sum_list (map (\<lambda>e. blockedRequests (requests e)) es)) (siteCount r) \<and>
    averageHostnames r
      = jsdiv (of_nat (sum_list (map (\<lambda>e. keyCount (hostnames (requests e))) es))) (siteCount r) \<and>
    averageEtldPlus1s r
      = jsdiv (of_nat (sum_list (map (\<lambda>e. keyCount (etldPlus1s (requests e))) es))) (siteCount r))"
proof -
  from assms have d: "distinct (map fst data)" by (simp add: wellFormedData_def)
  show ?thesis
    unfolding Let_def
    by (simp only: computeStatistics_sums [OF d] computeStatistics_aggregated(1)
        name_count_sums [OF assms] simp_thms)
qed

text \<open>The two-domain scenario of the repository's test of \<open>computeStatistics\<close>.\<close>

theorem computeStatistics_totals_and_averages_witness:
  "siteCount (computeStatistics sampleGetDomain testData noTrackers noCompanies) = 2 \<and>
   ReportResult.totalRequests (computeStatistics sampleGetDomain testData noTrackers noCompanies) = 30 \<and>
   averageRequests (computeStatistics sampleGetDomain testData noTrackers noCompanies) = Some 15 \<and>
   ReportResult.totalBlockedRequests (computeStatistics sampleGetDomain testData noTrackers noCompanies) = 7 \<and>
   averageBlockedRequests (computeStatistics sampleGetDomain testData noTrackers noCompanies) = Some (7 / 2) \<and>
   averageDomContentLoadTime (computeStatistics sampleGetDomain testData noTrackers noCompanies) = Some 750 \<and>
   averageLoadTime (computeStatistics sampleGetDomain testData noTrackers noCompanies) = Some 1500 \<and>
   averageBytes (computeStatistics sampleGetDomain testData noTrackers noCompanies) = Some 1250 \<and>
   averageThirdPartyRequests (computeStatistics sampleGetDomain testData noTrackers noCompanies) = Some 7 \<and>
   averageHostnames (computeStatistics sampleGetDomain testData noTrackers noCompanies) = Some (5 / 2) \<and>
   averageEtldPlus1s (computeStatistics sampleGetDomain testData noTrackers noCompanies) = Some 2"
proof -
  have wf: "wellFormedData testData"
    by (simp add: wellFormedData_def distinctKeys_def allEntries_def testData_def)
  have k: "keyCount (Some [(''example.com'', 10 :: rat), (''analytics.com'', 5), (''cdn.example.com'', 5)]) = 3"
    "keyCount (Some [(''test.com'', 6 :: rat), (''analytics.com'', 4)]) = 2"
    "keyCount (Some [(''example.com'', 15 :: rat), (''analytics.com'', 5)]) = 2"
    by (simp_all add: keyCount_def keysOf_def)
  from computeStatistics_totals_and_averages [OF wf, of sampleGetDomain noTrackers noCompanies]
  show ?thesis
    by (simp add: Let_def allEntries_def testData_def jsdiv_def toFixed_eval k)
qed

text \<open>
  One domain whose single entry has \<open>totalRequests = 20.75\<close>: the field \<open>totalRequests\<close> of
  the result is \<open>21\<close>, not the sum, and \<open>averageRequests\<close> is \<open>20.75\<close>, not that total
  divided by \<open>siteCount\<close>.
\<close>

theorem computeStatistics_totals_counterexample:
  "sum_list (map (\<lambda>e. Requests.totalRequests (requests e)) (allEntries fractionalData)) = 83 / 4 \<and>
   ReportResult.totalRequests (computeStatistics sampleGetDomain fractionalData noTrackers noCompanies) = 21 \<and>
   siteCount (computeStatistics sampleGetDomain fractionalData noTrackers noCompanies) = 1 \<and>
   averageRequests (computeStatistics sampleGetDomain fractionalData noTrackers noCompanies) = Some (83 / 4)"
proof -
  have d: "distinct (map fst fractionalData)" by (simp add: fractionalData_def)
  have s: "sum_list (map (\<lambda>e. Requests.totalRequests (requests e)) (allEntries fractionalData)) = 83 / 4"
    by (simp add: allEntries_def fractionalData_def withCounts_def)
  show ?thesis
    unfolding computeStatistics_sums [OF d] computeStatistics_aggregated(1) s
    by (simp add: fractionalData_def jsdiv_def toFixed_eval)
qed

text \<open>
  C10. For every well-formed \<open>MetricsData\<close>, \<open>totalHostnames\<close> of the result of
  \<open>computeStatistics\<close> is the sum, over all entries that have a \<open>hostnames\<close> dictionary,
  of the number of distinct keys of that dictionary, and \<open>totalEtldPlus1s\<close> likewise for
  \<open>etldPlus1s\<close>: names are counted, the request counts stored under them are not added.
\<close>

theorem computeStatistics_counts_names:
  assumes "wellFormedData data"
  shows "ReportResult.totalHostnames (computeStatistics getDomain data trackersInfo companiesInfo)
      = of_nat (sum_list (map (\<lambda>e. keyCount (hostnames (requests e))) (allEntries data))) \<and>
    ReportResult.totalEtldPlus1s (computeStatistics getDomain data trackersInfo companiesInfo)
      = of_nat (sum_list (map (\<lambda>e. keyCount (etldPlus1s (requests e))) (allEntries data)))"
proof -
  from assms have d: "distinct (map fst data)" by (simp add: wellFormedData_def)
  have len: "(case obj of None \<Rightarrow> 0 | Some al \<Rightarrow> length al) = keyCount obj" if "distinctKeys obj" for obj
  proof (cases obj)
    case None
    then show ?thesis by (simp add: keyCount_def keysOf_def)
  next
    case (Some al)
    with that have "distinct (map fst al)" by (simp add: distinctKeys_def)
    from distinct_card [OF this] Some show ?thesis by (simp add: keyCount_def keysOf_def)
  qed
  have h: "(case hostnames (requests e) of None \<Rightarrow> 0 | Some al \<Rightarrow> length al) = keyCount (hostnames (requests e))"
    if "e \<in> set (allEntries data)" for e
    using that assms by (intro len) (simp add: wellFormedData_def list_all_iff)
  have e: "(case etldPlus1s (requests e) of None \<Rightarrow> 0 | Some al \<Rightarrow> length al) = keyCount (etldPlus1s (requests e))"
    if "e \<in> set (allEntries data)" for e
    using that assms by (intro len) (simp add: wellFormedData_def list_all_iff)
  have hs: "map (\<lambda>e. (of_nat (case hostnames (requests e) of None \<Rightarrow> 0 | Some al \<Rightarrow> length al) :: rat)) (allEntries data)
      = map (\<lambda>e. of_nat (keyCount (hostnames (requests e)))) (allEntries data)"
    by (rule map_cong [OF refl]) (simp add: h)
  have es: "map (\<lambda>e. (of_nat (case etldPlus1s (requests e) of None \<Rightarrow> 0 | Some al \<Rightarrow> length al) :: rat)) (allEntries data)
      = map (\<lambda>e. of_nat (keyCount (etldPlus1s (requests e)))) (allEntries data)"
    by (rule map_cong [OF refl]) (simp add: e)
  have cast: "sum_list (map (\<lambda>e. (of_nat (f e) :: rat)) xs) = of_nat (sum_list (map f xs))" for f :: "Metrics \<Rightarrow> nat" and xs
    by (induction xs) simp_all
  show ?thesis
    unfolding computeStatistics_sums(12,13) [OF d] hs es cast by simp
qed

text \<open>
  In the test scenario the entries have \<open>3 + 2\<close> hostnames and \<open>2 + 2\<close> eTLD+1s, while
  the request counts stored under them add up to \<open>30\<close>.
\<close>

theorem computeStatistics_counts_names_witness:
  "ReportResult.totalHostnames (computeStatistics sampleGetDomain testData noTrackers noCompanies) = 5 \<and>
   ReportResult.totalEtldPlus1s (computeStatistics sampleGetDomain testData noTrackers noCompanies) = 4"
proof -
  have wf: "wellFormedData testData"
    by (simp add: wellFormedData_def distinctKeys_def allEntries_def testData_def)
  have k: "keyCount (Some [(''example.com'', 10 :: rat), (''analytics.com'', 5), (''cdn.example.com'', 5)]) = 3"
    "keyCount (Some [(''test.com'', 6 :: rat), (''analytics.com'', 4)]) = 2"
    "keyCount (Some [(''example.com'', 15 :: rat), (''analytics.com'', 5)]) = 2"
    by (simp_all add: keyCount_def keysOf_def)
  from computeStatistics_counts_names [OF wf, of sampleGetDomain noTrackers noCompanies]
  show ?thesis
    by (simp add: allEntries_def testData_def k)
qed

text \<open>
  C3. The claim is that an empty intersection of the domains that reach the threshold
  ends the process. Evaluated on two input files whose valid domains are disjoint,
  \<open>findCommonDomains\<close> returns the empty set, and \<open>generateReport\<close> goes on to produce a
  result (of zero sites) for each file.
\<close>

theorem findCommonDomains_empty_intersection_returns:
  "findCommonDomains disjointInputs = Inr [] \<and>
   (\<exists>ra rb. generateReport getDomain id trackersInfo companiesInfo disjointInputs [''baseline.json'', ''dns.json'']
        = Inr [(''baseline.json'', ra), (''dns.json'', rb)] \<and> siteCount ra = 0 \<and> siteCount rb = 0)"
proof -
  have v: "validDomains [(''example.com'', [withCounts 25 0 25 0 0 0])] = [''example.com'']"
    "validDomains [(''test.com'', [withCounts 30 0 30 0 0 0])] = [''test.com'']"
    by (simp_all add: validDomains_def jsdiv_def MIN_REQUESTS_THRESHOLD_def withCounts_def)
  have c: "findCommonDomains disjointInputs = Inr []"
    by (simp add: findCommonDomains_def disjointInputs_def v newSet_def Set_add_def Let_def)
  have "foldl (\<lambda>filteredData domain_name. filteredData) a ds = a" for a :: MetricsData and ds :: "string list"
    by (induction ds) simp_all
  then have f: "filterDataByCommonDomains data [] = []" for data
    by (simp add: filterDataByCommonDomains_def)
  let ?empty = "(computeStatistics getDomain [] trackersInfo companiesInfo)\<lparr>reportType := Baseline\<rparr>"
  have "generateReport getDomain id trackersInfo companiesInfo disjointInputs [''baseline.json'', ''dns.json'']
      = generateReportResults getDomain id trackersInfo companiesInfo disjointInputs []
          [''baseline.json'', ''dns.json'']"
    by (simp add: generateReport_def c)
  also have "\<dots> = Inr [(''baseline.json'', ?empty), (''dns.json'', ?empty)]"
    by (simp add: generateReportResults_def disjointInputs_def f Let_def determineTestEnvironment_def
        Object_keys_def)
  finally have g: "generateReport getDomain id trackersInfo companiesInfo disjointInputs
      [''baseline.json'', ''dns.json''] = Inr [(''baseline.json'', ?empty), (''dns.json'', ?empty)]" .
  have "siteCount ?empty = 0" by (simp add: computeStatistics_aggregated(1))
  with c g show ?thesis by blast
qed

subsection \<open>Trackers and companies\<close>

lemma foldl_preserve:
  assumes "\<And>st x. I st \<Longrightarrow> I (step st x)" and "I st"
  shows "I (foldl step st xs)"
  using assms(2) by (induction xs arbitrary: st) (simp_all add: assms(1))

lemma foldl_establish:
  assumes mono: "\<And>st x. I st \<Longrightarrow> I (step st x)"
      and est: "\<And>st. I (step st x0)"
      and mem: "x0 \<in> set xs"
  shows "I (foldl step st xs)"
  using mem
proof (induction xs arbitrary: st)
  case Nil
  then show ?case by simp
next
  case (Cons x xs)
  show ?case
  proof (cases "x = x0")
    case True
    have "I (foldl step (step st x0) xs)"
    proof (rule foldl_preserve [where I = I and step = step])
      show "I (step st x0)" by (rule est)
      show "\<And>st x. I st \<Longrightarrow> I (step st x)" by (rule mono)
    qed
    with True show ?thesis by simp
  next
    case False
    with Cons.prems have "x0 \<in> set xs" by simp
    from Cons.IH [OF this] show ?thesis by simp
  qed
qed

lemma addWebsite_reaches_same: "reaches (addWebsite k d wd) k d"
  by (simp add: addWebsite_def reaches_def update_conv' Set_add_def split: option.splits)

lemma addWebsite_reaches_mono: "reaches wd k d \<Longrightarrow> reaches (addWebsite k' d' wd) k d"
  by (auto simp: addWebsite_def reaches_def update_conv' Set_add_def split: option.splits)

lemma tallyStep_mono: "reaches (snd st) k d0 \<Longrightarrow> reaches (snd (tallyStep nameOf d st x)) k d0"
  by (cases st; cases x) (auto simp: tallyStep_def addWebsite_reaches_mono split: option.splits)

lemma tallyStep_est: "nameOf h = Some n \<Longrightarrow> n \<noteq> [] \<Longrightarrow> reaches (snd (tallyStep nameOf d st (h, c))) n d"
  by (cases st) (simp add: tallyStep_def addWebsite_reaches_same)

lemma processTrackers_tally:
  "processTrackers gd hs ti td twd d = foldl (tallyStep (trackerNameOf gd ti) d) (td, twd) hs"
  by (simp add: processTrackers_def tallyStep_def)

lemma processCompanies_tally:
  "processCompanies gd d hs ti ci cd cwd = foldl (tallyStep (companyNameOf gd ti ci) d) (cd, cwd) hs"
  by (simp add: processCompanies_def tallyStep_def)

lemma tally_fold_mono:
  "reaches wd k d0 \<Longrightarrow> reaches (snd (foldl (tallyStep nameOf d) (td, wd) hs)) k d0"
  by (rule foldl_preserve [where I = "\<lambda>st. reaches (snd st) k d0"]) (simp_all add: tallyStep_mono)

lemma tally_fold_est:
  assumes "(h, c) \<in> set hs" and "nameOf h = Some n" and "n \<noteq> []"
  shows "reaches (snd (foldl (tallyStep nameOf d) st hs)) n d"
  by (rule foldl_establish [where I = "\<lambda>st. reaches (snd st) n d" and ?x0.0 = "(h, c)"])
     (simp_all add: tallyStep_mono tallyStep_est assms)

lemma processEntry_websites:
  "CollectedData.trackersWebsitesData (snd (processEntry gd ti ci d st e))
     = (case hostnames (requests e) of
          None \<Rightarrow> CollectedData.trackersWebsitesData (snd st)
        | Some hs \<Rightarrow> snd (processTrackers gd hs ti (trackersData (snd st))
                          (CollectedData.trackersWebsitesData (snd st)) d))"
  "CollectedData.companiesWebsitesData (snd (processEntry gd ti ci d st e))
     = (case hostnames (requests e) of
          None \<Rightarrow> CollectedData.companiesWebsitesData (snd st)
        | Some hs \<Rightarrow> snd (processCompanies gd d hs ti ci (companiesData (snd st))
                          (CollectedData.companiesWebsitesData (snd st))))"
  "hostnamesData (snd (processEntry gd ti ci d st e))
     = (case hostnames (requests e) of
          None \<Rightarrow> hostnamesData (snd st)
        | Some hs \<Rightarrow> foldl (\<lambda>hd (hostname, count). addCount hostname count hd) (hostnamesData (snd st)) hs)"
  by (simp_all add: processEntry_def processHostnameData_def processEtldPlus1Data_def Let_def
      split: option.splits prod.splits)

lemma processAllDomains_invariant:
  assumes mono: "\<And>d st e. I st \<Longrightarrow> I (processEntry gd ti ci d st e)"
      and est: "\<And>st. I (processEntry gd ti ci d0 st e0)"
      and d0: "map_of data d0 = Some es0" and e0: "e0 \<in> set es0"
  shows "I (processAllDomains gd (Object_keys data) data ti ci a col)"
  unfolding processAllDomains_def
proof (rule foldl_establish [where I = I and ?x0.0 = d0])
  fix st :: "AggregatedData \<times> CollectedData" and x
  assume "I st"
  then show "I (case map_of data x of None \<Rightarrow> st | Some entries \<Rightarrow> foldl (processEntry gd ti ci x) st entries)"
    by (cases "map_of data x")
       (simp_all add: foldl_preserve [where I = I and step = "processEntry gd ti ci x", OF mono])
next
  fix st :: "AggregatedData \<times> CollectedData"
  have "I (foldl (processEntry gd ti ci d0) st es0)"
    by (rule foldl_establish [where I = I and step = "processEntry gd ti ci d0" and ?x0.0 = e0, OF mono est e0])
  then show "I (case map_of data d0 of None \<Rightarrow> st | Some entries \<Rightarrow> foldl (processEntry gd ti ci d0) st entries)"
    by (simp add: d0)
next
  from map_of_SomeD [OF d0] show "d0 \<in> set (Object_keys data)"
    by (force simp: Object_keys_def)
qed

lemma sizes_lookup: "map_of (sizes wd) k = map_option length (map_of wd k)"
  by (induction wd) (auto simp: sizes_def)

lemma reaches_counted: "reaches wd k d \<Longrightarrow> counted (sizes wd) k"
  by (auto simp: reaches_def counted_def sizes_lookup split: option.splits)

lemma computeStatistics_websites:
  "ReportResult.trackersWebsitesData (computeStatistics gd data ti ci)
     = sizes (CollectedData.trackersWebsitesData (collectedDataOf gd data ti ci))"
  "ReportResult.companiesWebsitesData (computeStatistics gd data ti ci)
     = sizes (CollectedData.companiesWebsitesData (collectedDataOf gd data ti ci))"
  "ReportResult.etldPlus1WebsitesData (computeStatistics gd data ti ci)
     = sizes (CollectedData.etldPlus1WebsitesData (collectedDataOf gd data ti ci))"
  by (simp_all add: computeStatistics_def assembleResult_def calculateAverages_def collectedDataOf_def
      convertSetsToCountMaps_def Let_def split: prod.splits)

lemma trackers_reach:
  assumes "map_of data d = Some es" and "e \<in> set es" and "hostnames (requests e) = Some hs"
      and "(h, c) \<in> set hs" and "trackerNameOf gd ti h = Some n" and "n \<noteq> []"
  shows "reaches (CollectedData.trackersWebsitesData (collectedDataOf gd data ti ci)) n d"
  unfolding collectedDataOf_def
proof (rule processAllDomains_invariant
    [where I = "\<lambda>st. reaches (CollectedData.trackersWebsitesData (snd st)) n d", OF _ _ assms(1,2)])
  fix d' and st :: "AggregatedData \<times> CollectedData" and e'
  assume "reaches (CollectedData.trackersWebsitesData (snd st)) n d"
  then show "reaches (CollectedData.trackersWebsitesData (snd (processEntry gd ti ci d' st e'))) n d"
    by (simp add: processEntry_websites processTrackers_tally tally_fold_mono split: option.splits)
next
  fix st :: "AggregatedData \<times> CollectedData"
  show "reaches (CollectedData.trackersWebsitesData (snd (processEntry gd ti ci d st e))) n d"
    using tally_fold_est [where nameOf = "trackerNameOf gd ti", OF assms(4,5,6)]
    by (simp add: processEntry_websites processTrackers_tally assms(3))
qed

lemma companies_reach:
  assumes "map_of data d = Some es" and "e \<in> set es" and "hostnames (requests e) = Some hs"
      and "(h, c) \<in> set hs" and "companyNameOf gd ti ci h = Some n" and "n \<noteq> []"
  shows "reaches (CollectedData.companiesWebsitesData (collectedDataOf gd data ti ci)) n d"
  unfolding collectedDataOf_def
proof (rule processAllDomains_invariant
    [where I = "\<lambda>st. reaches (CollectedData.companiesWebsitesData (snd st)) n d", OF _ _ assms(1,2)])
  fix d' and st :: "AggregatedData \<times> CollectedData" and e'
  assume "reaches (CollectedData.companiesWebsitesData (snd st)) n d"
  then show "reaches (CollectedData.companiesWebsitesData (snd (processEntry gd ti ci d' st e'))) n d"
    by (simp add: processEntry_websites processCompanies_tally tally_fold_mono split: option.splits)
next
  fix st :: "AggregatedData \<times> CollectedData"
  show "reaches (CollectedData.companiesWebsitesData (snd (processEntry gd ti ci d st e))) n d"
    using tally_fold_est [where nameOf = "companyNameOf gd ti ci", OF assms(4,5,6)]
    by (simp add: processEntry_websites processCompanies_tally assms(3))
qed

lemma addCount_keys: "fst ` set (addCount k c d) = insert k (fst ` set d)"
  by (simp add: addCount_def AList.dom_update split: option.splits)

lemma addCount_fold_keys:
  "fst ` set (foldl (\<lambda>hd (hostname, count). addCount hostname count hd) d hs) = fst ` set d \<union> fst ` set hs"
proof (induction hs arbitrary: d)
  case Nil
  then show ?case by simp
next
  case (Cons p hs)
  obtain k c where p: "p = (k, c)" by (cases p)
  show ?case by (simp add: p Cons.IH addCount_keys Un_assoc)
qed

lemma hostnames_tally:
  assumes "map_of data d = Some es" and "e \<in> set es" and "hostnames (requests e) = Some hs"
      and "(h, c) \<in> set hs"
  shows "h \<in> fst ` set (hostnamesData (collectedDataOf gd data ti ci))"
  unfolding collectedDataOf_def
proof (rule processAllDomains_invariant
    [where I = "\<lambda>st. h \<in> fst ` set (hostnamesData (snd st))", OF _ _ assms(1,2)])
  fix d' and st :: "AggregatedData \<times> CollectedData" and e'
  assume "h \<in> fst ` set (hostnamesData (snd st))"
  then show "h \<in> fst ` set (hostnamesData (snd (processEntry gd ti ci d' st e')))"
    by (simp add: processEntry_websites addCount_fold_keys split: option.splits)
next
  fix st :: "AggregatedData \<times> CollectedData"
  from assms(4) have "h \<in> fst ` set hs" by force
  then show "h \<in> fst ` set (hostnamesData (snd (processEntry gd ti ci d st e)))"
    by (simp add: processEntry_websites addCount_fold_keys assms(3))
qed

text \<open>
  What the code does with a non-empty hostname that has no entry in \<open>trackerDomains\<close> and
  for which \<open>getDomain\<close> returns \<open>null\<close>: the early return of the two resolvers is inside
  \<open>if (etldPlus1)\<close>, so the hostname falls through with its own name and is tallied as a
  tracker and as a company.
\<close>

lemma unresolvable_hostname_is_tallied:
  assumes "map_of data d = Some es" and "e \<in> set es" and "hostnames (requests e) = Some hs"
      and "(h, c) \<in> set hs" and "h \<noteq> []"
      and "map_of (trackerDomains trackersInfo) h = None" and "getDomain h = None"
  shows "reaches (CollectedData.trackersWebsitesData (collectedDataOf getDomain data trackersInfo companiesInfo)) h d \<and>
    reaches (CollectedData.companiesWebsitesData (collectedDataOf getDomain data trackersInfo companiesInfo)) h d \<and>
    counted (ReportResult.trackersWebsitesData (computeStatistics getDomain data trackersInfo companiesInfo)) h \<and>
    counted (ReportResult.companiesWebsitesData (computeStatistics getDomain data trackersInfo companiesInfo)) h \<and>
    h \<in> fst ` set (hostnamesData (collectedDataOf getDomain data trackersInfo companiesInfo))"
proof -
  have names: "trackerNameOf getDomain trackersInfo h = Some h"
      "companyNameOf getDomain trackersInfo companiesInfo h = Some h"
    using assms(6,7) by (simp_all add: trackerNameOf_def companyNameOf_def findTracker_def)
  have t: "reaches (CollectedData.trackersWebsitesData (collectedDataOf getDomain data trackersInfo companiesInfo)) h d"
    by (rule trackers_reach [OF assms(1-4) names(1) assms(5)])
  have c: "reaches (CollectedData.companiesWebsitesData (collectedDataOf getDomain data trackersInfo companiesInfo)) h d"
    by (rule companies_reach [OF assms(1-4) names(2) assms(5)])
  have r: "h \<in> fst ` set (hostnamesData (collectedDataOf getDomain data trackersInfo companiesInfo))"
    by (rule hostnames_tally [OF assms(1-4)])
  from t c r show ?thesis
    by (simp add: computeStatistics_websites reaches_counted)
qed

text \<open>
  C4. The claim is that a hostname with no exact match in \<open>trackerDomains\<close> and no
  derivable eTLD+1 contributes nothing to \<open>trackersWebsitesData\<close> and
  \<open>companiesWebsitesData\<close>. Evaluated on a page with three unknown hostnames and empty
  reference tables: the hostname whose eTLD+1 is derivable is skipped by both resolvers,
  as their comments say, while \<open>localhost\<close> and \<open>192.168.0.1\<close>, for which \<open>getDomain\<close>
  returns \<open>null\<close>, are counted in both maps.
\<close>

theorem computeStatistics_unresolvable_hostname_tallied:
  "map_of (trackerDomains noTrackers) ''localhost'' = None \<and>
   map_of (trackerDomains noTrackers) ''192.168.0.1'' = None \<and>
   sampleGetDomain ''localhost'' = None \<and> sampleGetDomain ''192.168.0.1'' = None \<and>
   sampleGetDomain ''static.unknown-cdn.com'' = Some ''unknown-cdn.com'' \<and>
   ReportResult.trackersWebsitesData (computeStatistics sampleGetDomain unresolvedHostsData noTrackers noCompanies)
     = [(''localhost'', 1), (''192.168.0.1'', 1)] \<and>
   ReportResult.companiesWebsitesData (computeStatistics sampleGetDomain unresolvedHostsData noTrackers noCompanies)
     = [(''localhost'', 1), (''192.168.0.1'', 1)]"
  by code_simp

lemma companyNameOf_resolved:
  assumes "resolvedTracker gd ti h = Some t"
  shows "companyNameOf gd ti ci h =
    Some (case findCompany ci (companyId t) of
            Some company \<Rightarrow> CompanyInfo.name company
          | None \<Rightarrow> orElse (gd h) h)"
  using assms
  by (auto simp: resolvedTracker_def companyNameOf_def Let_def split: option.splits if_splits)

text \<open>The label before the suffix is looked up only when no tracker is found at either tier.\<close>

lemma companyNameOf_unresolved:
  assumes "resolvedTracker gd ti h = None"
  shows "companyNameOf gd ti ci h =
    (case gd h of
       None \<Rightarrow> Some h
     | Some etldPlus1 \<Rightarrow>
         if etldPlus1 = [] then Some h
         else map_option CompanyInfo.name
                (map_of (companies ci) (takeWhile (\<lambda>c. c \<noteq> CHR ''.'') etldPlus1)))"
  using assms
  by (auto simp: resolvedTracker_def companyNameOf_def Let_def split: option.splits if_splits)

text \<open>
  C5, as amended. For a hostname that resolves to a tracker by the exact or the eTLD+1
  tier: if the tracker's \<open>companyId\<close> is in the companies table, the company tally is
  updated under that company's name; otherwise it is updated under the eTLD+1 of the
  hostname (under the hostname itself when there is none). The name is used when it is
  not empty. The label before the suffix is not tried for such a hostname.
\<close>

theorem computeStatistics_company_of_tracker:
  assumes "map_of data d = Some es" and "e \<in> set es" and "hostnames (requests e) = Some hs"
      and "(h, c) \<in> set hs"
      and "resolvedTracker getDomain trackersInfo h = Some tracker"
      and "cname = (case findCompany companiesInfo (companyId tracker) of
                      Some company \<Rightarrow> CompanyInfo.name company
                    | None \<Rightarrow> orElse (getDomain h) h)"
      and "cname \<noteq> []"
  shows "companyNameOf getDomain trackersInfo companiesInfo h = Some cname \<and>
    reaches (CollectedData.companiesWebsitesData (collectedDataOf getDomain data trackersInfo companiesInfo)) cname d \<and>
    counted (ReportResult.companiesWebsitesData (computeStatistics getDomain data trackersInfo companiesInfo)) cname"
proof -
  have n: "companyNameOf getDomain trackersInfo companiesInfo h = Some cname"
    unfolding assms(6) by (rule companyNameOf_resolved [OF assms(5)])
  have r: "reaches (CollectedData.companiesWebsitesData (collectedDataOf getDomain data trackersInfo companiesInfo))
      cname d"
    by (rule companies_reach [OF assms(1-4) n assms(7)])
  from n r show ?thesis
    by (simp add: computeStatistics_websites reaches_counted)
qed

text \<open>
  A tracker without a company, counted under the eTLD+1 of its hostname, and a tracker
  of a known company, counted under the company's name.
\<close>

theorem computeStatistics_company_of_tracker_witness:
  "counted (ReportResult.companiesWebsitesData (computeStatistics sampleGetDomain trackedData sampleTrackers sampleCompanies))
     ''example.com'' \<and>
   counted (ReportResult.companiesWebsitesData (computeStatistics sampleGetDomain trackedData sampleTrackers sampleCompanies))
     ''Google''"
proof -
  let ?hs = "[(''t.example.com'', 2), (''analytics.com'', 4)] :: rat Record"
  have d: "map_of trackedData ''news.org'' = Some [withMaps ?hs []]"
    by (simp add: trackedData_def)
  have e: "withMaps ?hs [] \<in> set [withMaps ?hs []]" by simp
  have h: "hostnames (requests (withMaps ?hs [])) = Some ?hs"
    by (simp add: withMaps_def)
  have t1: "resolvedTracker sampleGetDomain sampleTrackers ''t.example.com'' = Some exampleTracker"
    by (simp add: resolvedTracker_def findTracker_def sampleTrackers_def)
  have t2: "resolvedTracker sampleGetDomain sampleTrackers ''analytics.com'' = Some analyticsTracker"
    by (simp add: resolvedTracker_def findTracker_def sampleTrackers_def)
  have c1: "''example.com'' = (case findCompany sampleCompanies (companyId exampleTracker) of
                      Some company \<Rightarrow> CompanyInfo.name company
                    | None \<Rightarrow> orElse (sampleGetDomain ''t.example.com'') ''t.example.com'')"
    by (simp add: findCompany_def exampleTracker_def sampleGetDomain_def)
  have c2: "''Google'' = (case findCompany sampleCompanies (companyId analyticsTracker) of
                      Some company \<Rightarrow> CompanyInfo.name company
                    | None \<Rightarrow> orElse (sampleGetDomain ''analytics.com'') ''analytics.com'')"
    by (simp add: findCompany_def analyticsTracker_def sampleCompanies_def)
  have m1: "(''t.example.com'', 2) \<in> set ?hs" and m2: "(''analytics.com'', 4) \<in> set ?hs" by simp_all
  from computeStatistics_company_of_tracker [OF d e h m1 t1 c1]
       computeStatistics_company_of_tracker [OF d e h m2 t2 c2]
  show ?thesis by simp
qed

text \<open>
  The claim as stated fails on the first of them: \<open>example\<close>, the label before the suffix
  of \<open>example.com\<close>, is a company id, yet nothing is counted under \<open>Example Inc\<close>; and with
  an empty companies table both hostnames are still counted.
\<close>

theorem computeStatistics_company_of_tracker_counterexample:
  "resolvedTracker sampleGetDomain sampleTrackers ''t.example.com'' = Some exampleTracker \<and>
   findCompany sampleCompanies (companyId exampleTracker) = None \<and>
   map_option CompanyInfo.name (map_of (companies sampleCompanies) ''example'') = Some ''Example Inc'' \<and>
   ReportResult.companiesWebsitesData
     (computeStatistics sampleGetDomain trackedData sampleTrackers sampleCompanies)
     = [(''example.com'', 1), (''Google'', 1)] \<and>
   ReportResult.companiesWebsitesData
     (computeStatistics sampleGetDomain trackedData sampleTrackers noCompanies)
     = [(''example.com'', 1), (''analytics.com'', 1)]"
  by code_simp

end
